theory Spec2Isabelle
  imports Main
begin

section \<open>The autonomous content agent (content\_agent.py, config.py)\<close>

text \<open>
  A shallow embedding of \<^verbatim>\<open>ContentAgent\<close>. Every \<^verbatim>\<open>async def\<close> of the class is a function
  from the environment of one cycle and the world before the call to the call's outcome
  and the world after it. An outcome is \<open>Inl e\<close> when the Python method raises \<open>e\<close> and
  \<open>Inr v\<close> when it returns \<open>v\<close>; each \<^verbatim>\<open>try\<close>/\<^verbatim>\<open>except\<close> of the source is a case split
  on \<open>Inl\<close>.
\<close>

subsection \<open>Exceptions and JSON values\<close>

datatype exn =
    ClientError
  | TypeError
  | AttributeError
  | KeyError
  | AssertionError
  | OpenAIError
  | GithubException nat

text \<open>What \<^verbatim>\<open>json.loads\<close> returns. Numbers are integers here.\<close>

datatype json =
    JNull
  | JBool bool
  | JNum int
  | JStr string
  | JList "json list"
  | JDict "(string \<times> json) list"

text \<open>Python's \<^verbatim>\<open>sub in s\<close> on strings.\<close>

fun str_contains :: "string \<Rightarrow> string \<Rightarrow> bool" where
  "str_contains sub [] = (sub = [])"
| "str_contains sub (c # cs) = (take (length sub) (c # cs) = sub \<or> str_contains sub cs)"

text \<open>Truth value of a JSON value, as \<^verbatim>\<open>not new_content\<close> tests it.\<close>

fun truthy :: "json \<Rightarrow> bool" where
  "truthy JNull = False"
| "truthy (JBool b) = b"
| "truthy (JNum n) = (n \<noteq> 0)"
| "truthy (JStr s) = (s \<noteq> [])"
| "truthy (JList xs) = (xs \<noteq> [])"
| "truthy (JDict kvs) = (kvs \<noteq> [])"

text \<open>\<^verbatim>\<open>key in value\<close>: key lookup on a dict, membership on a list, substring on a string,
  \<^verbatim>\<open>TypeError\<close> on anything else.\<close>

fun py_in :: "string \<Rightarrow> json \<Rightarrow> exn + bool" where
  "py_in k (JDict kvs) = Inr (map_of kvs k \<noteq> None)"
| "py_in k (JList xs) = Inr (List.member xs (JStr k))"
| "py_in k (JStr s) = Inr (str_contains k s)"
| "py_in k _ = Inl TypeError"

text \<open>\<^verbatim>\<open>value[key]\<close> with a string key.\<close>

fun subscript :: "json \<Rightarrow> string \<Rightarrow> exn + json" where
  "subscript (JDict kvs) k = (case map_of kvs k of None \<Rightarrow> Inl KeyError | Some v \<Rightarrow> Inr v)"
| "subscript _ k = Inl TypeError"

subsection \<open>Strings\<close>

text \<open>\<^verbatim>\<open>str.lower\<close> and \<^verbatim>\<open>str.strip\<close> on ASCII text.\<close>

definition lower_char :: "char \<Rightarrow> char" where
  "lower_char c =
     (let n = (of_char c :: nat) in if 65 \<le> n \<and> n \<le> 90 then char_of (n + 32) else c)"

definition lower :: "string \<Rightarrow> string" where
  "lower s = map lower_char s"

definition is_space :: "char \<Rightarrow> bool" where
  "is_space c = (let n = (of_char c :: nat) in (9 \<le> n \<and> n \<le> 13) \<or> (28 \<le> n \<and> n \<le> 32))"

definition strip :: "string \<Rightarrow> string" where
  "strip s = rev (dropWhile is_space (rev (dropWhile is_space s)))"

text \<open>\<^verbatim>\<open>s.replace(c, '')\<close> for a one-character \<^verbatim>\<open>c\<close>.\<close>

definition remove_char :: "char \<Rightarrow> string \<Rightarrow> string" where
  "remove_char c s = filter (\<lambda>d. d \<noteq> c) s"

subsection \<open>Harvested records\<close>

text \<open>Times are microseconds, the resolution of \<^verbatim>\<open>datetime\<close>.\<close>

definition days :: "int \<Rightarrow> int" where
  "days n = n * 86400000000"

text \<open>An entry of a parsed feed. A field is \<open>None\<close> when the entry lacks it: reading
  \<^verbatim>\<open>entry.title\<close> then raises \<^verbatim>\<open>AttributeError\<close>, and slicing a \<^verbatim>\<open>published_parsed\<close>
  that is \<^verbatim>\<open>None\<close> raises \<^verbatim>\<open>TypeError\<close>.\<close>

record feed_entry =
  title :: "string option"
  link :: "string option"
  published_parsed :: "int option"
  summary :: "string option"
  author :: "string option"

record video =
  v_title :: string
  v_url :: string
  v_published :: int
  v_description :: string
  v_channel :: string

record post =
  p_title :: string
  p_url :: string
  p_published :: int
  p_summary :: string

text \<open>A \<^verbatim>\<open>div.update-item\<close> of the Apple page: the text of its \<^verbatim>\<open>h3\<close>, the
  \<^verbatim>\<open>datetime\<close> attribute of its \<^verbatim>\<open>time\<close> element (the outer option is the element, the
  inner one the attribute), the text of its \<^verbatim>\<open>p\<close>, the \<^verbatim>\<open>href\<close> of its \<^verbatim>\<open>a\<close>.\<close>

record update_item =
  h3 :: "string option"
  time_datetime :: "string option option"
  u_p :: "string option"
  a_href :: "string option option"

record update =
  u_title :: string
  u_date :: "string option"
  u_description :: string
  u_url :: string

text \<open>An \<^verbatim>\<open>article.Box-row\<close> of the trending page.\<close>

record repo_item =
  h2 :: "string option"
  r_p :: "string option"
  stargazers :: "string option"

record trending =
  t_name :: string
  t_description :: string
  t_stars :: string
  t_url :: string

text \<open>The \<^verbatim>\<open>data\<close> object of a child of a Reddit listing; a key that is absent is \<open>None\<close>
  and reading it raises \<^verbatim>\<open>KeyError\<close>.\<close>

record reddit_post =
  rp_title :: "string option"
  permalink :: "string option"
  score :: "int option"
  num_comments :: "int option"

record discussion =
  d_title :: string
  d_url :: string
  d_score :: int
  d_comments :: int
  d_subreddit :: string

text \<open>The dict \<^verbatim>\<open>content_data\<close> built by \<^verbatim>\<open>scrape_all_sources\<close>, one field per key.\<close>

record content_data =
  apple_updates :: "update list"
  youtube_videos :: "video list"
  github_trending :: "trending list"
  swift_blog :: "post list"
  reddit_discussions :: "discussion list"

subsection \<open>The world\<close>

text \<open>The request of a generator call: the data that the prompt template embeds.\<close>

datatype prompt =
    AnalysisPrompt "video list" "update list" "trending list" "post list" "discussion list"
  | GenerationPrompt json

text \<open>Everything a cycle does that is visible from outside, in order.\<close>

datatype event =
    Print string
  | PrintError string exn
  | ChatCompletion prompt
  | GetContents string
  | UpdateFile string string json string
  | CreateFile string string json
  | GetWorkflow string
  | CreateDispatch string
  | Sleep nat

text \<open>The world is the content tree of the GitHub repository (path to file content) and
  the log of events so far.\<close>

record world =
  files :: "string \<rightharpoonup> string"
  log :: "event list"

definition emit :: "event \<Rightarrow> world \<Rightarrow> world" where
  "emit ev w = w\<lparr>log := log w @ [ev]\<rparr>"

text \<open>What the generator answers to one call: the call raises, or the text of the first
  choice is not JSON (\<^verbatim>\<open>json.loads\<close> raises), or it parses to a value.\<close>

datatype llm_reply =
    CallRaises exn
  | NotJson exn
  | Parsed json

text \<open>
  The environment of one cycle: what the outside answers during it.
  \<^item> \<open>session_fault\<close>: \<^verbatim>\<open>aiohttp.ClientSession()\<close> raises (it is opened outside every
    \<^verbatim>\<open>try\<close>);
  \<^item> the five pages and feeds: \<open>Inl e\<close> when the request, reading the body or decoding it
    raises \<open>e\<close> (for Reddit also when \<^verbatim>\<open>data['data']['children']\<close> does), otherwise the
    parsed items in document order;
  \<^item> \<open>now\<close>: \<^verbatim>\<open>datetime.now()\<close>, \<open>today\<close>: its \<^verbatim>\<open>strftime("%Y%m%d")\<close>;
  \<^item> \<open>analysis_reply\<close>, \<open>generation_reply\<close>: the generator's answers to the two calls;
  \<^item> \<open>remote_fault\<close>: for a call to the GitHub API, the exception with which the remote
    side makes it fail (network, authentication, conflict with a concurrent edit), if any;
  \<^item> \<open>blob_sha\<close>: the hash that GitHub gives a file content (\<^verbatim>\<open>file.sha\<close>).
\<close>

record env =
  session_fault :: "exn option"
  apple_docs_page :: "exn + update_item list"
  youtube_feed :: "string \<Rightarrow> exn + feed_entry list"
  github_trending_page :: "exn + repo_item list"
  swift_blog_feed :: "exn + feed_entry list"
  reddit_hot :: "string \<Rightarrow> exn + reddit_post list"
  now :: int
  today :: string
  analysis_reply :: llm_reply
  generation_reply :: llm_reply
  remote_fault :: "event \<Rightarrow> exn option"
  blob_sha :: "string \<Rightarrow> string"

subsection \<open>Configuration\<close>

text \<open>\<^verbatim>\<open>self.sources\<close> of \<^verbatim>\<open>ContentAgent.__init__\<close>.\<close>

definition youtube_channels :: "string list" where
  "youtube_channels =
     [''UC2D6eRvCeMtcF5OGHf1-trw'', ''UCuP2vJ6kRutQBfRmdcI92mA'', ''UC_7ZKZSqtXAcbmhEzVyg8Pw'']"

definition reddit_feeds :: "string list" where
  "reddit_feeds = [''r/iOSProgramming'', ''r/swift'']"

text \<open>The quality thresholds of \<^verbatim>\<open>AgentConfig\<close> (config.py).\<close>

definition MIN_VIDEO_VIEWS :: int where
  "MIN_VIDEO_VIEWS = 1000"

definition MIN_GITHUB_STARS :: int where
  "MIN_GITHUB_STARS = 50"

definition MIN_REDDIT_SCORE :: int where
  "MIN_REDDIT_SCORE = 10"

subsection \<open>Source adapters\<close>

text \<open>\<^verbatim>\<open>scrape_youtube_content\<close>. The dict appended for an entry reads four attributes;
  its \<^verbatim>\<open>published\<close> is kept as the time, not as the ISO text of it.\<close>

definition video_of :: "feed_entry \<Rightarrow> int \<Rightarrow> exn + video" where
  "video_of entry pub_date =
     (case (title entry, link entry, summary entry, author entry) of
        (Some t, Some l, Some s, Some a) \<Rightarrow>
          Inr \<lparr>v_title = t, v_url = l, v_published = pub_date, v_description = s, v_channel = a\<rparr>
      | _ \<Rightarrow> Inl AttributeError)"

text \<open>The inner \<^verbatim>\<open>for entry in feed.entries[:5]\<close>; it stops at the first exception, and
  what was appended before stays in \<^verbatim>\<open>videos\<close>.\<close>

fun youtube_entries :: "int \<Rightarrow> feed_entry list \<Rightarrow> video list \<Rightarrow> (exn + unit) \<times> video list" where
  "youtube_entries t [] videos = (Inr (), videos)"
| "youtube_entries t (entry # es) videos =
     (case published_parsed entry of
        None \<Rightarrow> (Inl TypeError, videos)
      | Some pub_date \<Rightarrow>
          if t - pub_date \<le> days 7 then
            (case video_of entry pub_date of
               Inl e \<Rightarrow> (Inl e, videos)
             | Inr v \<Rightarrow> youtube_entries t es (videos @ [v]))
          else youtube_entries t es videos)"

text \<open>The outer \<^verbatim>\<open>for channel_id in ...\<close> with its \<^verbatim>\<open>try\<close>/\<^verbatim>\<open>except\<close> inside the loop.\<close>

fun youtube_loop :: "env \<Rightarrow> string list \<Rightarrow> video list \<Rightarrow> world \<Rightarrow> video list \<times> world" where
  "youtube_loop E [] videos w = (videos, w)"
| "youtube_loop E (channel_id # cs) videos w =
     (case youtube_feed E channel_id of
        Inl e \<Rightarrow>
          youtube_loop E cs videos
            (emit (PrintError (''Error scraping YouTube channel '' @ channel_id) e) w)
      | Inr entries \<Rightarrow>
          (case youtube_entries (now E) (take 5 entries) videos of
             (Inl e, videos') \<Rightarrow>
               youtube_loop E cs videos'
                 (emit (PrintError (''Error scraping YouTube channel '' @ channel_id) e) w)
           | (Inr u, videos') \<Rightarrow> youtube_loop E cs videos' w))"

definition scrape_youtube_content :: "env \<Rightarrow> world \<Rightarrow> (exn + video list) \<times> world" where
  "scrape_youtube_content E w =
     (case youtube_loop E youtube_channels [] w of (videos, w') \<Rightarrow> (Inr videos, w'))"

text \<open>\<^verbatim>\<open>scrape_apple_docs\<close>. \<^verbatim>\<open>item.find('a')['href']\<close> raises \<^verbatim>\<open>KeyError\<close> on a link
  without \<^verbatim>\<open>href\<close>.\<close>

fun apple_items :: "update_item list \<Rightarrow> update list \<Rightarrow> (exn + unit) \<times> update list" where
  "apple_items [] updates = (Inr (), updates)"
| "apple_items (item # items) updates =
     (case (h3 item, time_datetime item) of
        (Some title_text, Some date_attr) \<Rightarrow>
          (case a_href item of
             Some None \<Rightarrow> (Inl KeyError, updates)
           | a \<Rightarrow>
               apple_items items
                 (updates @
                  [\<lparr>u_title = strip title_text,
                    u_date = date_attr,
                    u_description = (case u_p item of Some d \<Rightarrow> strip d | None \<Rightarrow> []),
                    u_url = (case a of Some (Some h) \<Rightarrow> h | _ \<Rightarrow> [])\<rparr>]))
      | _ \<Rightarrow> apple_items items updates)"

definition scrape_apple_docs :: "env \<Rightarrow> world \<Rightarrow> (exn + update list) \<times> world" where
  "scrape_apple_docs E w =
     (case apple_docs_page E of
        Inl e \<Rightarrow> (Inr [], emit (PrintError ''Error scraping Apple docs'' e) w)
      | Inr items \<Rightarrow>
          (case apple_items (take 10 items) [] of
             (Inl e, updates) \<Rightarrow> (Inr updates, emit (PrintError ''Error scraping Apple docs'' e) w)
           | (Inr u, updates) \<Rightarrow> (Inr updates, w)))"

text \<open>\<^verbatim>\<open>scrape_github_trending\<close>. Nothing in its loop raises.\<close>

fun github_items :: "repo_item list \<Rightarrow> trending list \<Rightarrow> trending list" where
  "github_items [] repos = repos"
| "github_items (item # items) repos =
     (case h2 item of
        None \<Rightarrow> github_items items repos
      | Some title_text \<Rightarrow>
          (let repo_name = remove_char CHR '' '' (remove_char CHR ''\<newline>'' (strip title_text))
           in github_items items
                (repos @
                 [\<lparr>t_name = repo_name,
                   t_description = (case r_p item of Some d \<Rightarrow> strip d | None \<Rightarrow> []),
                   t_stars = (case stargazers item of Some s \<Rightarrow> strip s | None \<Rightarrow> ''0''),
                   t_url = ''https://github.com/'' @ repo_name\<rparr>])))"

definition scrape_github_trending :: "env \<Rightarrow> world \<Rightarrow> (exn + trending list) \<times> world" where
  "scrape_github_trending E w =
     (case github_trending_page E of
        Inl e \<Rightarrow> (Inr [], emit (PrintError ''Error scraping GitHub trending'' e) w)
      | Inr items \<Rightarrow> (Inr (github_items (take 10 items) []), w))"

text \<open>\<^verbatim>\<open>scrape_swift_blog\<close>.\<close>

definition post_of :: "feed_entry \<Rightarrow> int \<Rightarrow> exn + post" where
  "post_of entry pub_date =
     (case (title entry, link entry, summary entry) of
        (Some t, Some l, Some s) \<Rightarrow>
          Inr \<lparr>p_title = t, p_url = l, p_published = pub_date, p_summary = s\<rparr>
      | _ \<Rightarrow> Inl AttributeError)"

fun blog_entries :: "int \<Rightarrow> feed_entry list \<Rightarrow> post list \<Rightarrow> (exn + unit) \<times> post list" where
  "blog_entries t [] posts = (Inr (), posts)"
| "blog_entries t (entry # es) posts =
     (case published_parsed entry of
        None \<Rightarrow> (Inl TypeError, posts)
      | Some pub_date \<Rightarrow>
          if t - pub_date \<le> days 30 then
            (case post_of entry pub_date of
               Inl e \<Rightarrow> (Inl e, posts)
             | Inr p \<Rightarrow> blog_entries t es (posts @ [p]))
          else blog_entries t es posts)"

definition scrape_swift_blog :: "env \<Rightarrow> world \<Rightarrow> (exn + post list) \<times> world" where
  "scrape_swift_blog E w =
     (case swift_blog_feed E of
        Inl e \<Rightarrow> (Inr [], emit (PrintError ''Error scraping Swift blog'' e) w)
      | Inr entries \<Rightarrow>
          (case blog_entries (now E) (take 5 entries) [] of
             (Inl e, posts) \<Rightarrow> (Inr posts, emit (PrintError ''Error scraping Swift blog'' e) w)
           | (Inr u, posts) \<Rightarrow> (Inr posts, w)))"

text \<open>\<^verbatim>\<open>scrape_reddit_content\<close>.\<close>

definition reddit_keywords :: "string list" where
  "reddit_keywords = [''swift'', ''ios'', ''xcode'', ''swiftui'', ''performance'', ''monetization'']"

definition relevant :: "string \<Rightarrow> bool" where
  "relevant title_text = list_ex (\<lambda>keyword. str_contains keyword (lower title_text)) reddit_keywords"

fun reddit_posts ::
  "string \<Rightarrow> reddit_post list \<Rightarrow> discussion list \<Rightarrow> (exn + unit) \<times> discussion list" where
  "reddit_posts subreddit [] discussions = (Inr (), discussions)"
| "reddit_posts subreddit (post_data # ps) discussions =
     (case rp_title post_data of
        None \<Rightarrow> (Inl KeyError, discussions)
      | Some t \<Rightarrow>
          if relevant t then
            (case (permalink post_data, score post_data, num_comments post_data) of
               (Some l, Some s, Some c) \<Rightarrow>
                 reddit_posts subreddit ps
                   (discussions @
                    [\<lparr>d_title = t, d_url = ''https://reddit.com'' @ l, d_score = s,
                      d_comments = c, d_subreddit = subreddit\<rparr>])
             | _ \<Rightarrow> (Inl KeyError, discussions))
          else reddit_posts subreddit ps discussions)"

fun reddit_loop ::
  "env \<Rightarrow> string list \<Rightarrow> discussion list \<Rightarrow> world \<Rightarrow> discussion list \<times> world" where
  "reddit_loop E [] discussions w = (discussions, w)"
| "reddit_loop E (subreddit # ss) discussions w =
     (case reddit_hot E subreddit of
        Inl e \<Rightarrow>
          reddit_loop E ss discussions
            (emit (PrintError (''Error scraping Reddit '' @ subreddit) e) w)
      | Inr children \<Rightarrow>
          (case reddit_posts subreddit children discussions of
             (Inl e, discussions') \<Rightarrow>
               reddit_loop E ss discussions'
                 (emit (PrintError (''Error scraping Reddit '' @ subreddit) e) w)
           | (Inr u, discussions') \<Rightarrow> reddit_loop E ss discussions' w))"

definition scrape_reddit_content :: "env \<Rightarrow> world \<Rightarrow> (exn + discussion list) \<times> world" where
  "scrape_reddit_content E w =
     (case reddit_loop E reddit_feeds [] w of (discussions, w') \<Rightarrow> (Inr discussions, w'))"

text \<open>\<^verbatim>\<open>scrape_all_sources\<close>: the five adapters in the order of the source, inside the
  \<^verbatim>\<open>async with\<close> of the session.\<close>

definition scrape_all_sources :: "env \<Rightarrow> world \<Rightarrow> (exn + content_data) \<times> world" where
  "scrape_all_sources E w =
     (case session_fault E of
        Some e \<Rightarrow> (Inl e, w)
      | None \<Rightarrow>
     (case scrape_apple_docs E w of
        (Inl e, w1) \<Rightarrow> (Inl e, w1)
      | (Inr apple, w1) \<Rightarrow>
     (case scrape_youtube_content E w1 of
        (Inl e, w2) \<Rightarrow> (Inl e, w2)
      | (Inr youtube, w2) \<Rightarrow>
     (case scrape_github_trending E w2 of
        (Inl e, w3) \<Rightarrow> (Inl e, w3)
      | (Inr github, w3) \<Rightarrow>
     (case scrape_swift_blog E w3 of
        (Inl e, w4) \<Rightarrow> (Inl e, w4)
      | (Inr blog, w4) \<Rightarrow>
     (case scrape_reddit_content E w4 of
        (Inl e, w5) \<Rightarrow> (Inl e, w5)
      | (Inr reddit, w5) \<Rightarrow>
          (Inr \<lparr>apple_updates = apple, youtube_videos = youtube, github_trending = github,
                swift_blog = blog, reddit_discussions = reddit\<rparr>, w5)))))))"

subsection \<open>Analysis and generation\<close>

text \<open>One \<^verbatim>\<open>chat.completions.create\<close> call followed by \<^verbatim>\<open>json.loads\<close> of the answer: the
  call is made (and logged) whatever the answer is.\<close>

definition chat_completion :: "prompt \<Rightarrow> llm_reply \<Rightarrow> world \<Rightarrow> (exn + json) \<times> world" where
  "chat_completion request reply w =
     (let w1 = emit (ChatCompletion request) w
      in case reply of
           CallRaises e \<Rightarrow> (Inl e, w1)
         | NotJson e \<Rightarrow> (Inl e, w1)
         | Parsed j \<Rightarrow> (Inr j, w1))"

text \<open>\<^verbatim>\<open>analyze_content\<close>: the prompt embeds a prefix of each category.\<close>

definition analyze_content :: "env \<Rightarrow> content_data \<Rightarrow> world \<Rightarrow> (exn + json) \<times> world" where
  "analyze_content E content w =
     (let analysis_prompt =
            AnalysisPrompt (take 5 (youtube_videos content)) (take 5 (apple_updates content))
              (take 5 (github_trending content)) (take 3 (swift_blog content))
              (take 5 (reddit_discussions content))
      in case chat_completion analysis_prompt (analysis_reply E) w of
           (Inl e, w1) \<Rightarrow> (Inr (JDict []), emit (PrintError ''Error analyzing content'' e) w1)
         | (Inr insights, w1) \<Rightarrow> (Inr insights, w1))"

text \<open>\<^verbatim>\<open>generate_course_updates\<close>: no test of \<^verbatim>\<open>insights\<close> precedes the call.\<close>

definition generate_course_updates :: "env \<Rightarrow> json \<Rightarrow> world \<Rightarrow> (exn + json) \<times> world" where
  "generate_course_updates E insights w =
     (case chat_completion (GenerationPrompt insights) (generation_reply E) w of
        (Inl e, w1) \<Rightarrow> (Inr (JDict []), emit (PrintError ''Error generating content'' e) w1)
      | (Inr updates, w1) \<Rightarrow> (Inr updates, w1))"

subsection \<open>The content tree\<close>

text \<open>
  The three operations of the GitHub client on the repository. A call is logged, then
  fails with the remote fault of the environment if there is one, and otherwise acts on
  the tree as GitHub does: reading or updating an absent path is a 404, updating with a
  hash that is not the current one is a 409, creating an existing path is a 422. The
  client asserts that the content it is given is a string before it sends anything.
\<close>

definition get_contents :: "env \<Rightarrow> string \<Rightarrow> world \<Rightarrow> (exn + string \<times> string) \<times> world" where
  "get_contents E path w =
     (let w1 = emit (GetContents path) w
      in case remote_fault E (GetContents path) of
           Some e \<Rightarrow> (Inl e, w1)
         | None \<Rightarrow>
             (case files w path of
                None \<Rightarrow> (Inl (GithubException 404), w1)
              | Some c \<Rightarrow> (Inr (c, blob_sha E c), w1)))"

definition update_file ::
  "env \<Rightarrow> string \<Rightarrow> string \<Rightarrow> json \<Rightarrow> string \<Rightarrow> world \<Rightarrow> (exn + unit) \<times> world" where
  "update_file E path message content sha w =
     (let w1 = emit (UpdateFile path message content sha) w
      in case content of
           JStr s \<Rightarrow>
             (case remote_fault E (UpdateFile path message content sha) of
                Some e \<Rightarrow> (Inl e, w1)
              | None \<Rightarrow>
                  (case files w path of
                     None \<Rightarrow> (Inl (GithubException 404), w1)
                   | Some c \<Rightarrow>
                       if blob_sha E c = sha
                       then (Inr (), w1\<lparr>files := (files w1)(path \<mapsto> s)\<rparr>)
                       else (Inl (GithubException 409), w1)))
         | _ \<Rightarrow> (Inl AssertionError, w1))"

definition create_file ::
  "env \<Rightarrow> string \<Rightarrow> string \<Rightarrow> json \<Rightarrow> world \<Rightarrow> (exn + unit) \<times> world" where
  "create_file E path message content w =
     (let w1 = emit (CreateFile path message content) w
      in case content of
           JStr s \<Rightarrow>
             (case remote_fault E (CreateFile path message content) of
                Some e \<Rightarrow> (Inl e, w1)
              | None \<Rightarrow>
                  (case files w path of
                     None \<Rightarrow> (Inr (), w1\<lparr>files := (files w1)(path \<mapsto> s)\<rparr>)
                   | Some c \<Rightarrow> (Inl (GithubException 422), w1)))
         | _ \<Rightarrow> (Inl AssertionError, w1))"

text \<open>\<^verbatim>\<open>get_workflow\<close> and \<^verbatim>\<open>create_dispatch\<close> fail only by a remote fault.\<close>

definition get_workflow :: "env \<Rightarrow> string \<Rightarrow> world \<Rightarrow> (exn + unit) \<times> world" where
  "get_workflow E name w =
     (let w1 = emit (GetWorkflow name) w
      in case remote_fault E (GetWorkflow name) of
           Some e \<Rightarrow> (Inl e, w1)
         | None \<Rightarrow> (Inr (), w1))"

definition create_dispatch :: "env \<Rightarrow> string \<Rightarrow> world \<Rightarrow> (exn + unit) \<times> world" where
  "create_dispatch E ref w =
     (let w1 = emit (CreateDispatch ref) w
      in case remote_fault E (CreateDispatch ref) of
           Some e \<Rightarrow> (Inl e, w1)
         | None \<Rightarrow> (Inr (), w1))"

subsection \<open>Publisher\<close>

definition chapter_path :: "string \<Rightarrow> string" where
  "chapter_path timestamp = ''book/src/auto-generated/chapter_'' @ timestamp @ ''.md''"

definition summary_path :: string where
  "summary_path = ''book/src/SUMMARY.md''"

definition summary_header :: string where
  "summary_header = ''# Auto-Generated Content''"

text \<open>\<^verbatim>\<open>new_line\<close> of \<^verbatim>\<open>update_summary_file\<close>.\<close>

definition reference_line :: "string \<Rightarrow> string" where
  "reference_line timestamp =
     ''- [Auto-Generated '' @ timestamp @ ''](./auto-generated/chapter_'' @ timestamp
       @ ''.md)\<newline>''"

text \<open>The \<^verbatim>\<open>try\<close> block of \<^verbatim>\<open>update_summary_file\<close>.\<close>

definition update_summary_try :: "env \<Rightarrow> string \<Rightarrow> world \<Rightarrow> (exn + unit) \<times> world" where
  "update_summary_try E timestamp w =
     (case get_contents E summary_path w of
        (Inl e, w1) \<Rightarrow> (Inl e, w1)
      | (Inr (decoded, sha), w1) \<Rightarrow>
          (let new_line = reference_line timestamp;
               current_content =
                 (if \<not> str_contains summary_header decoded
                  then decoded @ ''\<newline># Auto-Generated Content\<newline>\<newline>''
                  else decoded);
               current_content = current_content @ new_line
           in update_file E summary_path (''Auto-update: Add chapter '' @ timestamp @ '' to summary'')
                (JStr current_content) sha w1))"

definition update_summary_file :: "env \<Rightarrow> string \<Rightarrow> world \<Rightarrow> (exn + unit) \<times> world" where
  "update_summary_file E timestamp w =
     (case update_summary_try E timestamp w of
        (Inl e, w1) \<Rightarrow> (Inr (), emit (PrintError ''Error updating SUMMARY.md'' e) w1)
      | (Inr u, w1) \<Rightarrow> (Inr (), w1))"

text \<open>The inner \<^verbatim>\<open>try\<close> of \<^verbatim>\<open>update_course_repo\<close>, whose bare \<^verbatim>\<open>except:\<close> creates the
  file.\<close>

definition create_or_update_file ::
  "env \<Rightarrow> string \<Rightarrow> string \<Rightarrow> json \<Rightarrow> world \<Rightarrow> (exn + unit) \<times> world" where
  "create_or_update_file E filename timestamp file_content w =
     (case get_contents E filename w of
        (Inl e, w1) \<Rightarrow>
          create_file E filename (''Auto-generate: New chapter '' @ timestamp) file_content w1
      | (Inr (c, sha), w1) \<Rightarrow>
          (case update_file E filename (''Auto-update: New chapter '' @ timestamp)
                  file_content sha w1 of
             (Inl e, w2) \<Rightarrow>
               create_file E filename (''Auto-generate: New chapter '' @ timestamp) file_content w2
           | (Inr u, w2) \<Rightarrow> (Inr (), w2)))"

text \<open>The outer \<^verbatim>\<open>try\<close> block of \<^verbatim>\<open>update_course_repo\<close>. Its two \<^verbatim>\<open>if\<close> statements test
  the same condition.\<close>

definition update_course_repo_try :: "env \<Rightarrow> json \<Rightarrow> world \<Rightarrow> (exn + unit) \<times> world" where
  "update_course_repo_try E new_content w =
     (case py_in ''new_chapter'' new_content of
        Inl e \<Rightarrow> (Inl e, w)
      | Inr False \<Rightarrow> (Inr (), emit (Print ''Repository updated with new content'') w)
      | Inr True \<Rightarrow>
          (let timestamp = today E; filename = chapter_path timestamp
           in case subscript new_content ''new_chapter'' of
                Inl e \<Rightarrow> (Inl e, w)
              | Inr file_content \<Rightarrow>
                  (case create_or_update_file E filename timestamp file_content w of
                     (Inl e, w1) \<Rightarrow> (Inl e, w1)
                   | (Inr u, w1) \<Rightarrow>
                       (case update_summary_file E timestamp w1 of
                          (Inl e, w2) \<Rightarrow> (Inl e, w2)
                        | (Inr u', w2) \<Rightarrow>
                            (Inr (), emit (Print ''Repository updated with new content'') w2)))))"

definition update_course_repo :: "env \<Rightarrow> json \<Rightarrow> world \<Rightarrow> (exn + unit) \<times> world" where
  "update_course_repo E new_content w =
     (if \<not> truthy new_content then (Inr (), w)
      else case update_course_repo_try E new_content w of
             (Inl e, w1) \<Rightarrow> (Inr (), emit (PrintError ''Error updating repository'' e) w1)
           | (Inr u, w1) \<Rightarrow> (Inr (), w1))"

subsection \<open>Deployment\<close>

definition deploy_updates :: "env \<Rightarrow> world \<Rightarrow> (exn + unit) \<times> world" where
  "deploy_updates E w =
     (case get_workflow E ''deploy.yml'' w of
        (Inl e, w1) \<Rightarrow> (Inr (), emit (PrintError ''Error triggering deployment'' e) w1)
      | (Inr workflow, w1) \<Rightarrow>
          (case create_dispatch E ''main'' w1 of
             (Inl e, w2) \<Rightarrow> (Inr (), emit (PrintError ''Error triggering deployment'' e) w2)
           | (Inr u, w2) \<Rightarrow> (Inr (), emit (Print ''Deployment triggered'') w2)))"

subsection \<open>The cycle and its scheduler\<close>

text \<open>The \<^verbatim>\<open>try\<close> block of \<^verbatim>\<open>run_autonomous_cycle\<close> up to the sleep: steps 1 to 5.\<close>

definition cycle_steps :: "env \<Rightarrow> world \<Rightarrow> (exn + unit) \<times> world" where
  "cycle_steps E w =
     (case scrape_all_sources E (emit (Print ''Starting content cycle'') w) of
        (Inl e, w1) \<Rightarrow> (Inl e, w1)
      | (Inr content, w1) \<Rightarrow>
     (case analyze_content E content w1 of
        (Inl e, w2) \<Rightarrow> (Inl e, w2)
      | (Inr insights, w2) \<Rightarrow>
     (case generate_course_updates E insights w2 of
        (Inl e, w3) \<Rightarrow> (Inl e, w3)
      | (Inr new_content, w3) \<Rightarrow>
     (case update_course_repo E new_content w3 of
        (Inl e, w4) \<Rightarrow> (Inl e, w4)
      | (Inr u, w4) \<Rightarrow> deploy_updates E w4))))"

text \<open>One iteration of \<^verbatim>\<open>while True\<close>: the steps, then the sleep of the \<^verbatim>\<open>try\<close> block or
  of the handler.\<close>

definition cycle_iteration :: "env \<Rightarrow> world \<Rightarrow> world" where
  "cycle_iteration E w =
     (case cycle_steps E w of
        (Inr u, w1) \<Rightarrow>
          emit (Sleep (6 * 3600)) (emit (Print ''Cycle completed. Sleeping for 6 hours...'') w1)
      | (Inl e, w1) \<Rightarrow>
          emit (Sleep 1800) (emit (PrintError ''Error in autonomous cycle'' e) w1))"

text \<open>
  \<^verbatim>\<open>run_autonomous_cycle\<close>: \<^verbatim>\<open>while True\<close> around the iteration. The loop is followed for
  \<open>fuel\<close> iterations, \<open>envs n\<close> being the environment of the \<open>n\<close>-th one. The result is
  the outcome of the method, \<open>None\<close> as long as it is still in the loop, and the world
  reached. The loop has no \<^verbatim>\<open>break\<close> and no \<^verbatim>\<open>return\<close>, and an iteration leaves no exception
  behind, so each iteration is followed by the next.
\<close>

fun run_autonomous_cycle ::
  "nat \<Rightarrow> (nat \<Rightarrow> env) \<Rightarrow> nat \<Rightarrow> world \<Rightarrow> (exn + unit) option \<times> world" where
  "run_autonomous_cycle 0 envs n w = (None, w)"
| "run_autonomous_cycle (Suc fuel) envs n w =
     run_autonomous_cycle fuel envs (Suc n) (cycle_iteration (envs n) w)"

subsection \<open>Auxiliary notions for the statements\<close>

text \<open>What one origin adds to the list of a multi-origin adapter: nothing when its
  fetch raises, otherwise what its inner loop appended before it ended or raised.\<close>

definition youtube_channel_videos :: "env \<Rightarrow> string \<Rightarrow> video list" where
  "youtube_channel_videos E channel_id =
     (case youtube_feed E channel_id of
        Inl e \<Rightarrow> []
      | Inr entries \<Rightarrow> snd (youtube_entries (now E) (take 5 entries) []))"

definition subreddit_discussions :: "env \<Rightarrow> string \<Rightarrow> discussion list" where
  "subreddit_discussions E subreddit =
     (case reddit_hot E subreddit of
        Inl e \<Rightarrow> []
      | Inr children \<Rightarrow> snd (reddit_posts subreddit children []))"


definition complete_post :: "reddit_post \<Rightarrow> bool" where
  "complete_post post_data =
     (rp_title post_data \<noteq> None \<and> permalink post_data \<noteq> None \<and> score post_data \<noteq> None
      \<and> num_comments post_data \<noteq> None)"

text \<open>The record that the adapter builds from such an entry, post or row.\<close>

definition the_video :: "feed_entry \<Rightarrow> video" where
  "the_video entry =
     \<lparr>v_title = the (title entry), v_url = the (link entry),
      v_published = the (published_parsed entry), v_description = the (summary entry),
      v_channel = the (author entry)\<rparr>"

definition the_post :: "feed_entry \<Rightarrow> post" where
  "the_post entry =
     \<lparr>p_title = the (title entry), p_url = the (link entry),
      p_published = the (published_parsed entry), p_summary = the (summary entry)\<rparr>"

definition the_discussion :: "string \<Rightarrow> reddit_post \<Rightarrow> discussion" where
  "the_discussion subreddit post_data =
     \<lparr>d_title = the (rp_title post_data),
      d_url = ''https://reddit.com'' @ the (permalink post_data),
      d_score = the (score post_data), d_comments = the (num_comments post_data),
      d_subreddit = subreddit\<rparr>"

definition the_trending :: "repo_item \<Rightarrow> trending" where
  "the_trending item =
     (let repo_name = remove_char CHR '' '' (remove_char CHR ''\<newline>'' (strip (the (h2 item))))
      in \<lparr>t_name = repo_name,
          t_description = (case r_p item of Some d \<Rightarrow> strip d | None \<Rightarrow> []),
          t_stars = (case stargazers item of Some s \<Rightarrow> strip s | None \<Rightarrow> ''0''),
          t_url = ''https://github.com/'' @ repo_name\<rparr>)"

text \<open>What \<^verbatim>\<open>update_summary_file\<close> writes over an index with content \<open>decoded\<close>.\<close>

definition index_with_reference :: "string \<Rightarrow> string \<Rightarrow> string" where
  "index_with_reference decoded timestamp =
     (if \<not> str_contains summary_header decoded
      then decoded @ ''\<newline># Auto-Generated Content\<newline>\<newline>''
      else decoded) @ reference_line timestamp"

text \<open>The age of an entry at time \<open>t\<close>.\<close>

definition age :: "int \<Rightarrow> feed_entry \<Rightarrow> int" where
  "age t entry = t - the (published_parsed entry)"

text \<open>An entry at which the loop of the YouTube adapter raises: it has no published time,
  or it passes the freshness test and a field of the record is missing. Likewise a post at
  which the loop of the Reddit adapter raises: it has no title, or its title has a keyword
  and a key of the record is missing.\<close>

definition video_raises :: "int \<Rightarrow> feed_entry \<Rightarrow> bool" where
  "video_raises t entry =
     (case published_parsed entry of
        None \<Rightarrow> True
      | Some pub_date \<Rightarrow> t - pub_date \<le> days 7 \<and> isl (video_of entry pub_date))"

definition post_raises :: "reddit_post \<Rightarrow> bool" where
  "post_raises post_data =
     (case rp_title post_data of
        None \<Rightarrow> True
      | Some t \<Rightarrow>
          relevant t
          \<and> (permalink post_data = None \<or> score post_data = None \<or> num_comments post_data = None))"

text \<open>The sleeps of the log.\<close>

fun is_sleep :: "event \<Rightarrow> bool" where
  "is_sleep (Sleep d) = True"
| "is_sleep ev = False"

definition sleeps :: "world \<Rightarrow> event list" where
  "sleeps w = filter is_sleep (log w)"

subsection \<open>Example environments\<close>

text \<open>Every source is unreachable, both generator calls fail, GitHub is healthy.\<close>

definition env_down :: env where
  "env_down =
     \<lparr>session_fault = None,
      apple_docs_page = Inl ClientError,
      youtube_feed = (\<lambda>channel_id. Inl ClientError),
      github_trending_page = Inl ClientError,
      swift_blog_feed = Inl ClientError,
      reddit_hot = (\<lambda>subreddit. Inl ClientError),
      now = days 7,
      today = ''20260101'',
      analysis_reply = CallRaises OpenAIError,
      generation_reply = CallRaises OpenAIError,
      remote_fault = (\<lambda>call. None),
      blob_sha = (\<lambda>c. c)\<rparr>"

text \<open>The analysis call fails, the generation call answers with a chapter.\<close>

definition chapter_json :: json where
  "chapter_json = JDict [(''new_chapter'', JStr ''# Hello'')]"

definition env_chapter :: env where
  "env_chapter = env_down\<lparr>generation_reply := Parsed chapter_json\<rparr>"

text \<open>As before, and GitHub rejects every \<^verbatim>\<open>create_file\<close> with a conflict.\<close>

definition env_conflict :: env where
  "env_conflict =
     env_chapter\<lparr>remote_fault :=
       (\<lambda>call. case call of CreateFile p m c \<Rightarrow> Some (GithubException 409) | _ \<Rightarrow> None)\<rparr>"

text \<open>As \<open>env_chapter\<close>, and GitHub rejects every \<^verbatim>\<open>update_file\<close> with a conflict.\<close>

definition env_stale :: env where
  "env_stale =
     env_chapter\<lparr>remote_fault :=
       (\<lambda>call. case call of UpdateFile p m c s \<Rightarrow> Some (GithubException 409) | _ \<Rightarrow> None)\<rparr>"

text \<open>The HTTP session cannot be opened.\<close>

definition env_offline :: env where
  "env_offline = env_down\<lparr>session_fault := Some ClientError\<rparr>"

text \<open>Three feed entries, published seven days, seven days and a microsecond, and no
  time before \<open>now = days 7\<close>.\<close>

definition entry_at :: "string \<Rightarrow> int \<Rightarrow> feed_entry" where
  "entry_at name pub_date =
     \<lparr>title = Some name, link = Some (''https://example.org/'' @ name),
      published_parsed = Some pub_date, summary = Some ''text'', author = Some ''someone''\<rparr>"

definition three_entries :: "feed_entry list" where
  "three_entries = [entry_at ''boundary'' 0, entry_at ''stale'' (- 1), entry_at ''new'' (days 7)]"

text \<open>Two Reddit posts with a keyword in the title, one of score 0, and one without.\<close>

definition three_posts :: "reddit_post list" where
  "three_posts =
     [\<lparr>rp_title = Some ''Swift 6 is out'', permalink = Some ''/r/swift/1'', score = Some 0,
       num_comments = Some 0\<rparr>,
      \<lparr>rp_title = Some ''Weekly thread'', permalink = Some ''/r/swift/2'', score = Some 500,
       num_comments = Some 40\<rparr>,
      \<lparr>rp_title = Some ''Xcode tips'', permalink = Some ''/r/swift/3'', score = Some 12,
       num_comments = Some 3\<rparr>]"

text \<open>The second YouTube channel and the first subreddit are unreachable; the other
  origins answer, and the trending page has one row, of 12 stars.\<close>

definition env_partial :: env where
  "env_partial =
     env_down
       \<lparr>youtube_feed :=
          (\<lambda>channel_id. if channel_id = ''UC2D6eRvCeMtcF5OGHf1-trw'' then Inr three_entries
                         else if channel_id = ''UCuP2vJ6kRutQBfRmdcI92mA'' then Inl ClientError
                         else Inr [entry_at ''third'' (days 7)]),
        github_trending_page :=
          Inr [\<lparr>h2 = Some '' vapor / vapor '', r_p = None, stargazers = Some '' 12 ''\<rparr>],
        swift_blog_feed := Inr three_entries,
        reddit_hot :=
          (\<lambda>subreddit. if subreddit = ''r/iOSProgramming'' then Inl ClientError
                        else Inr three_posts)\<rparr>"

text \<open>A trending page of eleven titled rows, and a listing whose second post has a keyword
  in the title and no score.\<close>

definition eleven_rows :: "repo_item list" where
  "eleven_rows =
     map (\<lambda>name. \<lparr>h2 = Some name, r_p = None, stargazers = Some ''7''\<rparr>)
       [''a/1'', ''a/2'', ''a/3'', ''a/4'', ''a/5'', ''a/6'', ''a/7'', ''a/8'', ''a/9'', ''a/10'',
        ''a/11'']"

definition broken_listing :: "reddit_post list" where
  "broken_listing =
     [\<lparr>rp_title = Some ''Swift 6 is out'', permalink = Some ''/r/swift/1'', score = Some 0,
       num_comments = Some 0\<rparr>,
      \<lparr>rp_title = Some ''Xcode tips'', permalink = Some ''/r/swift/3'', score = None,
       num_comments = Some 3\<rparr>,
      \<lparr>rp_title = Some ''SwiftUI layout'', permalink = Some ''/r/swift/4'', score = Some 900,
       num_comments = Some 50\<rparr>]"

definition env_rows :: env where
  "env_rows =
     env_down\<lparr>github_trending_page := Inr eleven_rows,
              reddit_hot := (\<lambda>subreddit. if subreddit = ''r/swift'' then Inr broken_listing
                                          else Inl ClientError)\<rparr>"

text \<open>A content tree with an index and no chapter.\<close>

definition world0 :: world where
  "world0 = \<lparr>files = [summary_path \<mapsto> ''# Summary\<newline>''], log = []\<rparr>"

section \<open>Auxiliary lemmas\<close>

lemma run_autonomous_cycle_running: "fst (run_autonomous_cycle fuel envs n w) = None"
  by (induction fuel arbitrary: n w) simp_all

lemma run_autonomous_cycle_last:
  "snd (run_autonomous_cycle (Suc fuel) envs n w) =
     cycle_iteration (envs (n + fuel)) (snd (run_autonomous_cycle fuel envs n w))"
  by (induction fuel arbitrary: n w) simp_all

lemma youtube_entries_acc:
  "youtube_entries t es vs =
     (fst (youtube_entries t es []), vs @ snd (youtube_entries t es []))"
proof (induction es arbitrary: vs)
  case Nil
  show ?case by simp
next
  case (Cons e es)
  note IH = Cons.IH
  show ?case
  proof (cases "published_parsed e")
    case None
    then show ?thesis by simp
  next
    case (Some p)
    show ?thesis
    proof (cases "t - p \<le> days 7")
      case False
      with Some IH [of vs] show ?thesis by simp
    next
      case True
      show ?thesis
      proof (cases "video_of e p")
        case (Inl x)
        with Some True show ?thesis by simp
      next
        case (Inr v)
        with Some True IH [of "vs @ [v]"] IH [of "[v]"] show ?thesis by simp
      qed
    qed
  qed
qed

lemma youtube_loop_videos:
  "fst (youtube_loop E cs vs w) = vs @ concat (map (youtube_channel_videos E) cs)"
proof (induction cs arbitrary: vs w)
  case Nil
  show ?case by simp
next
  case (Cons c cs)
  show ?case
  proof (cases "youtube_feed E c")
    case (Inl e)
    then show ?thesis by (simp add: Cons.IH youtube_channel_videos_def)
  next
    case (Inr entries)
    obtain r new where new: "youtube_entries (now E) (take 5 entries) [] = (r, new)"
      by (cases "youtube_entries (now E) (take 5 entries) []")
    have acc: "youtube_entries (now E) (take 5 entries) vs = (r, vs @ new)"
      using youtube_entries_acc [of "now E" "take 5 entries" vs] new by simp
    show ?thesis
      using Inr new acc by (cases r) (simp_all add: Cons.IH youtube_channel_videos_def)
  qed
qed

lemma reddit_posts_acc:
  "reddit_posts s ps ds = (fst (reddit_posts s ps []), ds @ snd (reddit_posts s ps []))"
proof (induction ps arbitrary: ds)
  case Nil
  show ?case by simp
next
  case (Cons p ps)
  note IH = Cons.IH
  show ?case
  proof (cases "rp_title p")
    case None
    then show ?thesis by simp
  next
    case (Some t)
    show ?thesis
    proof (cases "relevant t")
      case False
      with Some IH [of ds] show ?thesis by simp
    next
      case True
      show ?thesis
      proof (cases "permalink p")
        case None
        with Some True show ?thesis by simp
      next
        case l: (Some l)
        show ?thesis
        proof (cases "score p")
          case None
          with Some True l show ?thesis by simp
        next
          case sc: (Some sc)
          show ?thesis
          proof (cases "num_comments p")
            case None
            with Some True l sc show ?thesis by simp
          next
            case c: (Some c)
            let ?d = "\<lparr>d_title = t, d_url = ''https://reddit.com'' @ l, d_score = sc,
                        d_comments = c, d_subreddit = s\<rparr>"
            from Some True l sc c IH [of "ds @ [?d]"] IH [of "[?d]"] show ?thesis by simp
          qed
        qed
      qed
    qed
  qed
qed

lemma reddit_loop_discussions:
  "fst (reddit_loop E ss ds w) = ds @ concat (map (subreddit_discussions E) ss)"
proof (induction ss arbitrary: ds w)
  case Nil
  show ?case by simp
next
  case (Cons s ss)
  show ?case
  proof (cases "reddit_hot E s")
    case (Inl e)
    then show ?thesis by (simp add: Cons.IH subreddit_discussions_def)
  next
    case (Inr children)
    obtain r new where new: "reddit_posts s children [] = (r, new)"
      by (cases "reddit_posts s children []")
    have acc: "reddit_posts s children ds = (r, ds @ new)"
      using reddit_posts_acc [of s children ds] new by simp
    show ?thesis
      using Inr new acc by (cases r) (simp_all add: Cons.IH subreddit_discussions_def)
  qed
qed


lemma log_emit [simp]: "log (emit ev w) = log w @ [ev]"
  by (simp add: emit_def)

lemma files_emit [simp]: "files (emit ev w) = files w"
  by (simp add: emit_def)

lemma get_contents_world: "snd (get_contents E p w) = emit (GetContents p) w"
  by (simp add: get_contents_def Let_def split: option.splits)

lemma update_file_log:
  "log (snd (update_file E p m c s w)) = log w @ [UpdateFile p m c s]"
  by (simp add: update_file_def Let_def split: json.splits option.splits)

lemma create_file_log:
  "log (snd (create_file E p m c w)) = log w @ [CreateFile p m c]"
  by (simp add: create_file_def Let_def split: json.splits option.splits)

lemma chapter_not_summary: "chapter_path ts \<noteq> summary_path"
  by (simp add: chapter_path_def summary_path_def)

lemma create_or_update_file_log:
  "\<exists>s. log (snd (create_or_update_file E f ts c w)) = log w @ [GetContents f, CreateFile f (''Auto-generate: New chapter '' @ ts) c]
     \<or> log (snd (create_or_update_file E f ts c w)) = log w @ [GetContents f, UpdateFile f (''Auto-update: New chapter '' @ ts) c s]
     \<or> log (snd (create_or_update_file E f ts c w)) = log w @ [GetContents f, UpdateFile f (''Auto-update: New chapter '' @ ts) c s, CreateFile f (''Auto-generate: New chapter '' @ ts) c]"
proof (cases "get_contents E f w")
  case (Pair r w1)
  have w1: "w1 = emit (GetContents f) w"
    using get_contents_world [of E f w] Pair by simp
  show ?thesis
  proof (cases r)
    case (Inl e)
    with Pair w1 show ?thesis
      by (simp add: create_or_update_file_def create_file_log)
  next
    case (Inr cs)
    obtain c0 sha where cs: "cs = (c0, sha)" by (cases cs)
    obtain r2 w2 where u: "update_file E f (''Auto-update: New chapter '' @ ts) c sha w1 = (r2, w2)"
      by (cases "update_file E f (''Auto-update: New chapter '' @ ts) c sha w1")
    have w2: "log w2 = log w @ [GetContents f, UpdateFile f (''Auto-update: New chapter '' @ ts) c sha]"
      using update_file_log [of E f "''Auto-update: New chapter '' @ ts" c sha w1] u w1 by simp
    show ?thesis
      using Pair Inr cs u w2
      by (cases r2) (auto simp: create_or_update_file_def create_file_log)
  qed
qed

lemma update_summary_file_log:
  "\<exists>m c s e.
     log (snd (update_summary_file E ts w)) =
       log w @ [GetContents summary_path, PrintError ''Error updating SUMMARY.md'' e]
   \<or> log (snd (update_summary_file E ts w)) =
       log w @ [GetContents summary_path, UpdateFile summary_path m c s]
   \<or> log (snd (update_summary_file E ts w)) =
       log w @ [GetContents summary_path, UpdateFile summary_path m c s,
                PrintError ''Error updating SUMMARY.md'' e]"
proof (cases "get_contents E summary_path w")
  case (Pair r w1)
  have w1: "w1 = emit (GetContents summary_path) w"
    using get_contents_world [of E summary_path w] Pair by simp
  show ?thesis
  proof (cases r)
    case (Inl e)
    with Pair w1 show ?thesis
      by (simp add: update_summary_file_def update_summary_try_def)
  next
    case (Inr cs)
    obtain c0 sha where cs: "cs = (c0, sha)" by (cases cs)
    define m where "m = ''Auto-update: Add chapter '' @ ts @ '' to summary''"
    define c where "c = JStr ((if \<not> str_contains summary_header c0
                  then c0 @ ''\<newline># Auto-Generated Content\<newline>\<newline>''
                  else c0) @ reference_line ts)"
    obtain r2 w2 where u: "update_file E summary_path m c sha w1 = (r2, w2)"
      by (cases "update_file E summary_path m c sha w1")
    have w2: "log w2 = log w @ [GetContents summary_path, UpdateFile summary_path m c sha]"
      using update_file_log [of E summary_path m c sha w1] u w1 by simp
    have tr: "update_summary_try E ts w = (r2, w2)"
      using Pair Inr cs u by (simp add: update_summary_try_def m_def c_def Let_def)
    show ?thesis
      using tr w2 by (cases r2) (auto simp: update_summary_file_def)
  qed
qed

lemma update_summary_file_returns: "fst (update_summary_file E ts w) = Inr ()"
  by (simp add: update_summary_file_def split: prod.splits sum.splits)

lemma update_course_repo_returns: "fst (update_course_repo E new_content w) = Inr ()"
  by (simp add: update_course_repo_def split: prod.splits sum.splits)

lemma deploy_updates_returns: "fst (deploy_updates E w) = Inr ()"
  by (simp add: deploy_updates_def split: prod.splits sum.splits)

lemma update_course_repo_events:
  "\<exists>evs. log (snd (update_course_repo E new_content w)) = log w @ evs \<and> distinct evs"
proof (cases "truthy new_content")
  case False
  then show ?thesis by (simp add: update_course_repo_def)
next
  case True
  show ?thesis
  proof (cases "py_in ''new_chapter'' new_content")
    case (Inl e)
    with True show ?thesis
      by (simp add: update_course_repo_def update_course_repo_try_def)
  next
    case (Inr b)
    show ?thesis
    proof (cases b)
      case False
      with True Inr show ?thesis
        by (simp add: update_course_repo_def update_course_repo_try_def)
    next
      case b: True
      show ?thesis
      proof (cases "subscript new_content ''new_chapter''")
        case (Inl e)
        with True Inr b show ?thesis
          by (simp add: update_course_repo_def update_course_repo_try_def)
      next
        case fc: (Inr fc)
        define f where "f = chapter_path (today E)"
        obtain r1 w1 where c: "create_or_update_file E f (today E) fc w = (r1, w1)"
          by (cases "create_or_update_file E f (today E) fc w")
        have neq: "f \<noteq> summary_path"
          by (simp add: f_def chapter_not_summary)
        from create_or_update_file_log [of E f "today E" fc w] c
        obtain evs1 where w1: "log w1 = log w @ evs1" and d1: "distinct evs1"
          and k1: "\<forall>ev \<in> set evs1. ev = GetContents f \<or> (\<exists>m. ev = CreateFile f m fc)
                     \<or> (\<exists>m s. ev = UpdateFile f m fc s)"
          by auto
        show ?thesis
        proof (cases r1)
          case (Inl e)
          have "log (snd (update_course_repo E new_content w)) =
                  log w @ (evs1 @ [PrintError ''Error updating repository'' e])"
            using True Inr b fc c Inl w1
            by (simp add: update_course_repo_def update_course_repo_try_def f_def)
          moreover have "distinct (evs1 @ [PrintError ''Error updating repository'' e])"
            using d1 k1 by auto
          ultimately show ?thesis by blast
        next
          case r1: (Inr u)
          obtain r2 w2 where s: "update_summary_file E (today E) w1 = (r2, w2)"
            by (cases "update_summary_file E (today E) w1")
          have r2: "r2 = Inr ()"
            using update_summary_file_returns [of E "today E" w1] s by simp
          from update_summary_file_log [of E "today E" w1] s
          obtain evs2 where w2: "log w2 = log w1 @ evs2" and d2: "distinct evs2"
            and k2: "\<forall>ev \<in> set evs2. ev = GetContents summary_path
                       \<or> (\<exists>m c s. ev = UpdateFile summary_path m c s)
                       \<or> (\<exists>e. ev = PrintError ''Error updating SUMMARY.md'' e)"
            by auto
          have "log (snd (update_course_repo E new_content w)) =
                  log w @ (evs1 @ evs2 @ [Print ''Repository updated with new content''])"
            using True Inr b fc c r1 s r2 w1 w2
            by (simp add: update_course_repo_def update_course_repo_try_def f_def)
          moreover have "distinct (evs1 @ evs2 @ [Print ''Repository updated with new content''])"
            using d1 d2 k1 k2 neq by auto
          ultimately show ?thesis by blast
        qed
      qed
    qed
  qed
qed







lemma youtube_loop_log: "\<exists>evs. log (snd (youtube_loop E cs vs w)) = log w @ evs"
proof (induction cs arbitrary: vs w)
  case Nil
  show ?case by simp
next
  case (Cons c cs)
  show ?case
  proof (cases "youtube_feed E c")
    case (Inl e)
    from Cons.IH [of vs "emit (PrintError (''Error scraping YouTube channel '' @ c) e) w"]
    show ?thesis using Inl by auto
  next
    case (Inr entries)
    obtain r vs' where y: "youtube_entries (now E) (take 5 entries) vs = (r, vs')"
      by (cases "youtube_entries (now E) (take 5 entries) vs")
    show ?thesis
    proof (cases r)
      case (Inl e)
      from Cons.IH [of vs' "emit (PrintError (''Error scraping YouTube channel '' @ c) e) w"]
      show ?thesis using Inr y Inl by auto
    next
      case r: (Inr u)
      from Cons.IH [of vs' w] show ?thesis using Inr y r by auto
    qed
  qed
qed

lemma reddit_loop_log: "\<exists>evs. log (snd (reddit_loop E ss ds w)) = log w @ evs"
proof (induction ss arbitrary: ds w)
  case Nil
  show ?case by simp
next
  case (Cons s ss)
  show ?case
  proof (cases "reddit_hot E s")
    case (Inl e)
    from Cons.IH [of ds "emit (PrintError (''Error scraping Reddit '' @ s) e) w"]
    show ?thesis using Inl by auto
  next
    case (Inr children)
    obtain r ds' where y: "reddit_posts s children ds = (r, ds')"
      by (cases "reddit_posts s children ds")
    show ?thesis
    proof (cases r)
      case (Inl e)
      from Cons.IH [of ds' "emit (PrintError (''Error scraping Reddit '' @ s) e) w"]
      show ?thesis using Inr y Inl by auto
    next
      case r: (Inr u)
      from Cons.IH [of ds' w] show ?thesis using Inr y r by auto
    qed
  qed
qed

lemma scrape_apple_docs_returns:
  "\<exists>r evs w'. scrape_apple_docs E w = (Inr r, w') \<and> log w' = log w @ evs"
  by (auto simp: scrape_apple_docs_def split: sum.splits prod.splits)

lemma scrape_github_trending_returns:
  "\<exists>r evs w'. scrape_github_trending E w = (Inr r, w') \<and> log w' = log w @ evs"
  by (auto simp: scrape_github_trending_def split: sum.splits prod.splits)

lemma scrape_swift_blog_returns:
  "\<exists>r evs w'. scrape_swift_blog E w = (Inr r, w') \<and> log w' = log w @ evs"
  by (auto simp: scrape_swift_blog_def split: sum.splits prod.splits)

lemma scrape_youtube_content_returns:
  "\<exists>r evs w'. scrape_youtube_content E w = (Inr r, w') \<and> log w' = log w @ evs"
  using youtube_loop_log [of E youtube_channels "[]" w]
  by (cases "youtube_loop E youtube_channels [] w") (auto simp: scrape_youtube_content_def)

lemma scrape_reddit_content_returns:
  "\<exists>r evs w'. scrape_reddit_content E w = (Inr r, w') \<and> log w' = log w @ evs"
  using reddit_loop_log [of E reddit_feeds "[]" w]
  by (cases "reddit_loop E reddit_feeds [] w") (auto simp: scrape_reddit_content_def)

lemma scrape_all_sources_returns:
  assumes "session_fault E = None"
  shows "\<exists>content evs w'. scrape_all_sources E w = (Inr content, w') \<and> log w' = log w @ evs"
proof -
  obtain a e1 w1 where 1: "scrape_apple_docs E w = (Inr a, w1)" "log w1 = log w @ e1"
    using scrape_apple_docs_returns by blast
  obtain y e2 w2 where 2: "scrape_youtube_content E w1 = (Inr y, w2)" "log w2 = log w1 @ e2"
    using scrape_youtube_content_returns by blast
  obtain g e3 w3 where 3: "scrape_github_trending E w2 = (Inr g, w3)" "log w3 = log w2 @ e3"
    using scrape_github_trending_returns by blast
  obtain b e4 w4 where 4: "scrape_swift_blog E w3 = (Inr b, w4)" "log w4 = log w3 @ e4"
    using scrape_swift_blog_returns by blast
  obtain r e5 w5 where 5: "scrape_reddit_content E w4 = (Inr r, w5)" "log w5 = log w4 @ e5"
    using scrape_reddit_content_returns by blast
  show ?thesis
    using assms 1 2 3 4 5 by (simp add: scrape_all_sources_def)
qed

lemma scrape_all_sources_raises:
  "session_fault E = Some e \<Longrightarrow> scrape_all_sources E w = (Inl e, w)"
  by (simp add: scrape_all_sources_def)

lemma analyze_content_returns:
  "\<exists>insights evs w'. analyze_content E content w = (Inr insights, w') \<and> log w' = log w @ evs"
  by (auto simp: analyze_content_def chat_completion_def Let_def split: llm_reply.splits)

lemma analyze_content_fails:
  "analysis_reply E = CallRaises e \<or> analysis_reply E = NotJson e \<Longrightarrow>
     fst (analyze_content E content w) = Inr (JDict [])"
  by (auto simp: analyze_content_def chat_completion_def Let_def)

lemma generate_course_updates_call:
  "generate_course_updates E insights w =
     (Inr (case generation_reply E of Parsed j \<Rightarrow> j | _ \<Rightarrow> JDict []),
      w\<lparr>log := log w @ ChatCompletion (GenerationPrompt insights) #
              (case generation_reply E of
                 CallRaises e \<Rightarrow> [PrintError ''Error generating content'' e]
               | NotJson e \<Rightarrow> [PrintError ''Error generating content'' e]
               | Parsed j \<Rightarrow> [])\<rparr>)"
  by (simp add: generate_course_updates_def chat_completion_def Let_def emit_def
           split: llm_reply.splits)

lemma deploy_updates_log:
  "log (snd (deploy_updates E w)) =
     log w @
       (case remote_fault E (GetWorkflow ''deploy.yml'') of
          Some e \<Rightarrow> [GetWorkflow ''deploy.yml'', PrintError ''Error triggering deployment'' e]
        | None \<Rightarrow>
            (case remote_fault E (CreateDispatch ''main'') of
               Some e \<Rightarrow> [GetWorkflow ''deploy.yml'', CreateDispatch ''main'',
                          PrintError ''Error triggering deployment'' e]
             | None \<Rightarrow> [GetWorkflow ''deploy.yml'', CreateDispatch ''main'',
                         Print ''Deployment triggered'']))"
  by (simp add: deploy_updates_def get_workflow_def create_dispatch_def Let_def
           split: option.splits)

lemma cycle_steps_stages:
  assumes "session_fault E = None"
  shows "\<exists>content w1 insights w2 w3 evs.
           analyze_content E content w1 = (Inr insights, w2)
         \<and> log w2 = log w @ evs
         \<and> generate_course_updates E insights w2 =
             (Inr (case generation_reply E of Parsed j \<Rightarrow> j | _ \<Rightarrow> JDict []), w3)
         \<and> cycle_steps E w =
             deploy_updates E
               (snd (update_course_repo E
                       (case generation_reply E of Parsed j \<Rightarrow> j | _ \<Rightarrow> JDict []) w3))"
proof -
  let ?w0 = "emit (Print ''Starting content cycle'') w"
  let ?nc = "case generation_reply E of Parsed j \<Rightarrow> j | _ \<Rightarrow> JDict []"
  obtain content e1 w1 where 1: "scrape_all_sources E ?w0 = (Inr content, w1)"
      "log w1 = log ?w0 @ e1"
    using scrape_all_sources_returns [OF assms] by blast
  obtain insights e2 w2 where 2: "analyze_content E content w1 = (Inr insights, w2)"
      "log w2 = log w1 @ e2"
    using analyze_content_returns by blast
  obtain w3 where 3: "generate_course_updates E insights w2 = (Inr ?nc, w3)"
    using generate_course_updates_call [of E insights w2] by simp
  obtain r4 w4 where 4: "update_course_repo E ?nc w3 = (r4, w4)"
    by (cases "update_course_repo E ?nc w3")
  have r4: "r4 = Inr ()"
    using update_course_repo_returns [of E ?nc w3] 4 by simp
  have "cycle_steps E w = deploy_updates E (snd (update_course_repo E ?nc w3))"
    using 1 2 3 4 r4 by (simp add: cycle_steps_def)
  moreover have "log w2 = log w @ (Print ''Starting content cycle'' # e1 @ e2)"
    using 1 2 by simp
  ultimately show ?thesis using 2 3 by blast
qed

lemma cycle_steps_returns:
  "session_fault E = None \<Longrightarrow> fst (cycle_steps E w) = Inr ()"
  using cycle_steps_stages [of E w] deploy_updates_returns by auto

lemma cycle_steps_raises:
  "session_fault E = Some e \<Longrightarrow>
     cycle_steps E w = (Inl e, emit (Print ''Starting content cycle'') w)"
  by (simp add: cycle_steps_def scrape_all_sources_raises)

lemma relevant_examples:
  "relevant ''Swift 6 is out''" "\<not> relevant ''Weekly thread''" "relevant ''Xcode tips''"
  by (simp_all add: relevant_def reddit_keywords_def lower_def lower_char_def char_of_def bit_0)

lemma update_course_repo_chapter:
  assumes "map_of kvs ''new_chapter'' = Some file_content"
  shows "\<exists>evs. log (snd (update_course_repo E (JDict kvs) w)) =
           log (snd (create_or_update_file E (chapter_path (today E)) (today E) file_content w))
             @ evs"
proof -
  let ?f = "chapter_path (today E)"
  from assms have ne: "kvs \<noteq> []" by auto
  obtain r1 w1 where c: "create_or_update_file E ?f (today E) file_content w = (r1, w1)"
    by (cases "create_or_update_file E ?f (today E) file_content w")
  show ?thesis
  proof (cases r1)
    case (Inl e)
    with assms ne c show ?thesis
      by (simp add: update_course_repo_def update_course_repo_try_def)
  next
    case (Inr u)
    obtain r2 w2 where s: "update_summary_file E (today E) w1 = (r2, w2)"
      by (cases "update_summary_file E (today E) w1")
    have r2: "r2 = Inr ()"
      using update_summary_file_returns [of E "today E" w1] s by simp
    obtain evs2 where w2: "log w2 = log w1 @ evs2"
      using update_summary_file_log [of E "today E" w1] s by auto
    show ?thesis
      using assms ne c Inr s r2 w2
      by (simp add: update_course_repo_def update_course_repo_try_def)
  qed
qed

lemma reddit_posts_complete:
  "\<forall>p \<in> set ps. complete_post p \<Longrightarrow>
     reddit_posts sub ps [] =
       (Inr (), map (the_discussion sub) (filter (\<lambda>p. relevant (the (rp_title p))) ps))"
proof (induction ps)
  case Nil
  show ?case by simp
next
  case (Cons p ps)
  then have IH: "reddit_posts sub ps [] =
       (Inr (), map (the_discussion sub) (filter (\<lambda>p. relevant (the (rp_title p))) ps))"
    by simp
  from Cons.prems obtain t l s c where p: "rp_title p = Some t" "permalink p = Some l"
      "score p = Some s" "num_comments p = Some c"
    by (auto simp: complete_post_def)
  show ?case
    using p IH reddit_posts_acc [of sub ps "[the_discussion sub p]"]
    by (simp add: the_discussion_def)
qed

lemma github_items_acc: "github_items items repos = repos @ github_items items []"
proof (induction items arbitrary: repos)
  case Nil
  show ?case by simp
next
  case (Cons i items)
  show ?case
  proof (cases "h2 i")
    case None
    then show ?thesis using Cons.IH [of repos] by simp
  next
    case (Some t)
    then show ?thesis
      using Cons.IH [of "repos @ [the_trending i]"] Cons.IH [of "[the_trending i]"]
      by (simp add: the_trending_def Let_def)
  qed
qed

lemma github_items_filter:
  "github_items items [] = map the_trending (filter (\<lambda>i. h2 i \<noteq> None) items)"
proof (induction items)
  case Nil
  show ?case by simp
next
  case (Cons i items)
  show ?case
  proof (cases "h2 i")
    case None
    then show ?thesis using Cons.IH by simp
  next
    case (Some t)
    then show ?thesis
      using Cons.IH github_items_acc [of items "[the_trending i]"]
      by (simp add: the_trending_def Let_def)
  qed
qed

lemma complete_three_posts: "\<forall>post_data \<in> set three_posts. complete_post post_data"
  by (simp add: three_posts_def complete_post_def)

lemma harvest_down:
  "session_fault E = None \<Longrightarrow> apple_docs_page E = Inl ClientError \<Longrightarrow>
   youtube_feed E = (\<lambda>channel_id. Inl ClientError) \<Longrightarrow>
   github_trending_page E = Inl ClientError \<Longrightarrow> swift_blog_feed E = Inl ClientError \<Longrightarrow>
   reddit_hot E = (\<lambda>subreddit. Inl ClientError) \<Longrightarrow>
   scrape_all_sources E w =
     (Inr \<lparr>apple_updates = [], youtube_videos = [], github_trending = [], swift_blog = [],
           reddit_discussions = []\<rparr>,
      w\<lparr>log := log w @
        [PrintError ''Error scraping Apple docs'' ClientError,
         PrintError ''Error scraping YouTube channel UC2D6eRvCeMtcF5OGHf1-trw'' ClientError,
         PrintError ''Error scraping YouTube channel UCuP2vJ6kRutQBfRmdcI92mA'' ClientError,
         PrintError ''Error scraping YouTube channel UC_7ZKZSqtXAcbmhEzVyg8Pw'' ClientError,
         PrintError ''Error scraping GitHub trending'' ClientError,
         PrintError ''Error scraping Swift blog'' ClientError,
         PrintError ''Error scraping Reddit r/iOSProgramming'' ClientError,
         PrintError ''Error scraping Reddit r/swift'' ClientError]\<rparr>)"
  by (simp add: scrape_all_sources_def scrape_apple_docs_def
        scrape_youtube_content_def scrape_github_trending_def scrape_swift_blog_def
        scrape_reddit_content_def youtube_channels_def reddit_feeds_def emit_def)

lemma take_length_prefix: "(take (length sub) xs = sub) = (\<exists>ss. xs = sub @ ss)"
proof
  assume "take (length sub) xs = sub"
  then have "xs = sub @ drop (length sub) xs"
    using append_take_drop_id [of "length sub" xs] by simp
  then show "\<exists>ss. xs = sub @ ss" ..
next
  assume "\<exists>ss. xs = sub @ ss"
  then show "take (length sub) xs = sub" by auto
qed

lemma str_contains_iff: "str_contains sub s = (\<exists>ps ss. s = ps @ sub @ ss)"
proof (induction s)
  case Nil
  show ?case by auto
next
  case (Cons c cs)
  show ?case
  proof
    assume "str_contains sub (c # cs)"
    then consider "take (length sub) (c # cs) = sub" | "str_contains sub cs" by auto
    then show "\<exists>ps ss. c # cs = ps @ sub @ ss"
    proof cases
      case 1
      then obtain ss where "c # cs = sub @ ss"
        using take_length_prefix [of sub "c # cs"] by blast
      then have "c # cs = [] @ sub @ ss" by simp
      then show ?thesis by blast
    next
      case 2
      then obtain ps ss where "cs = ps @ sub @ ss" using Cons.IH by blast
      then have "c # cs = (c # ps) @ sub @ ss" by simp
      then show ?thesis by blast
    qed
  next
    assume "\<exists>ps ss. c # cs = ps @ sub @ ss"
    then obtain ps ss where e: "c # cs = ps @ sub @ ss" by blast
    show "str_contains sub (c # cs)"
    proof (cases ps)
      case Nil
      with e have "take (length sub) (c # cs) = sub"
        using take_length_prefix [of sub "c # cs"] by auto
      then show ?thesis by simp
    next
      case (Cons p ps')
      with e have "cs = ps' @ sub @ ss" by simp
      then have "str_contains sub cs" using Cons.IH by blast
      then show ?thesis by simp
    qed
  qed
qed

lemma str_contains_append: "str_contains sub s \<Longrightarrow> str_contains sub (s @ t)"
proof -
  assume "str_contains sub s"
  then obtain ps ss where "s = ps @ sub @ ss" using str_contains_iff by blast
  then have "s @ t = ps @ sub @ (ss @ t)" by simp
  then show ?thesis using str_contains_iff by blast
qed

lemma str_contains_header:
  "str_contains summary_header (s @ ''\<newline># Auto-Generated Content\<newline>\<newline>'')"
proof -
  have "s @ ''\<newline># Auto-Generated Content\<newline>\<newline>'' =
          (s @ ''\<newline>'') @ summary_header @ ''\<newline>\<newline>''"
    by (simp add: summary_header_def)
  then show ?thesis using str_contains_iff by blast
qed

lemma index_with_reference_again:
  "index_with_reference (index_with_reference index ts) ts =
     index_with_reference index ts @ reference_line ts"
proof -
  have "str_contains summary_header
          (if \<not> str_contains summary_header index
           then index @ ''\<newline># Auto-Generated Content\<newline>\<newline>''
           else index)"
    using str_contains_header [of index] by (cases "str_contains summary_header index") simp_all
  then have "str_contains summary_header (index_with_reference index ts)"
    unfolding index_with_reference_def by (rule str_contains_append)
  then show ?thesis
    by (simp add: index_with_reference_def [of "index_with_reference index ts"])
qed

lemma update_summary_file_healthy:
  assumes "remote_fault E = (\<lambda>call. None)" and "files w summary_path = Some index"
  shows "update_summary_file E ts w =
           (Inr (),
            w\<lparr>files := (files w)(summary_path \<mapsto> index_with_reference index ts),
              log := log w @
                [GetContents summary_path,
                 UpdateFile summary_path (''Auto-update: Add chapter '' @ ts @ '' to summary'')
                   (JStr (index_with_reference index ts)) (blob_sha E index)]\<rparr>)"
  using assms
  by (simp add: update_summary_file_def update_summary_try_def get_contents_def
        update_file_def index_with_reference_def emit_def Let_def)

lemma publish_creates:
  assumes "remote_fault E = (\<lambda>call. None)"
    and "files w (chapter_path (today E)) = None"
    and "files w summary_path = Some index"
    and "map_of kvs ''new_chapter'' = Some (JStr chapter)"
  shows "update_course_repo E (JDict kvs) w =
           (Inr (),
            w\<lparr>files := (files w)(chapter_path (today E) \<mapsto> chapter,
                                  summary_path \<mapsto> index_with_reference index (today E)),
              log := log w @
                [GetContents (chapter_path (today E)),
                 CreateFile (chapter_path (today E)) (''Auto-generate: New chapter '' @ today E)
                   (JStr chapter),
                 GetContents summary_path,
                 UpdateFile summary_path
                   (''Auto-update: Add chapter '' @ today E @ '' to summary'')
                   (JStr (index_with_reference index (today E))) (blob_sha E index),
                 Print ''Repository updated with new content'']\<rparr>)"
proof -
  let ?f = "chapter_path (today E)"
  let ?w1 = "w\<lparr>files := (files w)(?f \<mapsto> chapter),
               log := log w @ [GetContents ?f,
                 CreateFile ?f (''Auto-generate: New chapter '' @ today E) (JStr chapter)]\<rparr>"
  from assms(4) have ne: "kvs \<noteq> []" by auto
  have c: "create_or_update_file E ?f (today E) (JStr chapter) w = (Inr (), ?w1)"
    using assms(1,2)
    by (simp add: create_or_update_file_def get_contents_def create_file_def emit_def Let_def)
  have "files ?w1 summary_path = Some index"
    using assms(3) chapter_not_summary [of "today E"] by simp
  from update_summary_file_healthy [OF assms(1) this, of "today E"]
  have s: "update_summary_file E (today E) ?w1 =
     (Inr (),
      ?w1\<lparr>files := (files ?w1)(summary_path \<mapsto> index_with_reference index (today E)),
          log := log ?w1 @
            [GetContents summary_path,
             UpdateFile summary_path (''Auto-update: Add chapter '' @ today E @ '' to summary'')
               (JStr (index_with_reference index (today E))) (blob_sha E index)]\<rparr>)" .
  show ?thesis
    using assms(4) ne c s
    by (simp add: update_course_repo_def update_course_repo_try_def emit_def Let_def)
qed

lemma publish_updates:
  assumes "remote_fault E = (\<lambda>call. None)"
    and "files w (chapter_path (today E)) = Some old"
    and "files w summary_path = Some index"
    and "map_of kvs ''new_chapter'' = Some (JStr chapter)"
  shows "update_course_repo E (JDict kvs) w =
           (Inr (),
            w\<lparr>files := (files w)(chapter_path (today E) \<mapsto> chapter,
                                  summary_path \<mapsto> index_with_reference index (today E)),
              log := log w @
                [GetContents (chapter_path (today E)),
                 UpdateFile (chapter_path (today E)) (''Auto-update: New chapter '' @ today E)
                   (JStr chapter) (blob_sha E old),
                 GetContents summary_path,
                 UpdateFile summary_path
                   (''Auto-update: Add chapter '' @ today E @ '' to summary'')
                   (JStr (index_with_reference index (today E))) (blob_sha E index),
                 Print ''Repository updated with new content'']\<rparr>)"
proof -
  let ?f = "chapter_path (today E)"
  let ?w1 = "w\<lparr>files := (files w)(?f \<mapsto> chapter),
               log := log w @ [GetContents ?f,
                 UpdateFile ?f (''Auto-update: New chapter '' @ today E) (JStr chapter)
                   (blob_sha E old)]\<rparr>"
  from assms(4) have ne: "kvs \<noteq> []" by auto
  have c: "create_or_update_file E ?f (today E) (JStr chapter) w = (Inr (), ?w1)"
    using assms(1,2)
    by (simp add: create_or_update_file_def get_contents_def update_file_def emit_def Let_def)
  have "files ?w1 summary_path = Some index"
    using assms(3) chapter_not_summary [of "today E"] by simp
  from update_summary_file_healthy [OF assms(1) this, of "today E"]
  have s: "update_summary_file E (today E) ?w1 =
     (Inr (),
      ?w1\<lparr>files := (files ?w1)(summary_path \<mapsto> index_with_reference index (today E)),
          log := log ?w1 @
            [GetContents summary_path,
             UpdateFile summary_path (''Auto-update: Add chapter '' @ today E @ '' to summary'')
               (JStr (index_with_reference index (today E))) (blob_sha E index)]\<rparr>)" .
  show ?thesis
    using assms(4) ne c s
    by (simp add: update_course_repo_def update_course_repo_try_def emit_def Let_def)
qed

lemma sleeps_emit: "sleeps (emit ev w) = sleeps w @ (if is_sleep ev then [ev] else [])"
  by (simp add: sleeps_def)

lemma sleeps_log_eq: "log w' = log w @ evs \<Longrightarrow> \<forall>ev \<in> set evs. \<not> is_sleep ev \<Longrightarrow> sleeps w' = sleeps w"
  by (simp add: sleeps_def)

lemma youtube_loop_sleeps: "sleeps (snd (youtube_loop E cs vs w)) = sleeps w"
proof (induction cs arbitrary: vs w)
  case Nil
  show ?case by simp
next
  case (Cons c cs)
  show ?case
  proof (cases "youtube_feed E c")
    case (Inl e)
    then show ?thesis by (simp add: Cons.IH sleeps_emit)
  next
    case (Inr entries)
    obtain r vs' where y: "youtube_entries (now E) (take 5 entries) vs = (r, vs')"
      by (cases "youtube_entries (now E) (take 5 entries) vs")
    show ?thesis
      using Inr y by (cases r) (simp_all add: Cons.IH sleeps_emit)
  qed
qed

lemma reddit_loop_sleeps: "sleeps (snd (reddit_loop E ss ds w)) = sleeps w"
proof (induction ss arbitrary: ds w)
  case Nil
  show ?case by simp
next
  case (Cons s ss)
  show ?case
  proof (cases "reddit_hot E s")
    case (Inl e)
    then show ?thesis by (simp add: Cons.IH sleeps_emit)
  next
    case (Inr children)
    obtain r ds' where y: "reddit_posts s children ds = (r, ds')"
      by (cases "reddit_posts s children ds")
    show ?thesis
      using Inr y by (cases r) (simp_all add: Cons.IH sleeps_emit)
  qed
qed

lemma scrape_apple_docs_sleeps: "sleeps (snd (scrape_apple_docs E w)) = sleeps w"
  by (simp add: scrape_apple_docs_def sleeps_emit split: sum.splits prod.splits)

lemma scrape_github_trending_sleeps: "sleeps (snd (scrape_github_trending E w)) = sleeps w"
  by (simp add: scrape_github_trending_def sleeps_emit split: sum.splits prod.splits)

lemma scrape_swift_blog_sleeps: "sleeps (snd (scrape_swift_blog E w)) = sleeps w"
  by (simp add: scrape_swift_blog_def sleeps_emit split: sum.splits prod.splits)

lemma scrape_youtube_content_sleeps: "sleeps (snd (scrape_youtube_content E w)) = sleeps w"
  using youtube_loop_sleeps [of E youtube_channels "[]" w]
  by (cases "youtube_loop E youtube_channels [] w") (simp add: scrape_youtube_content_def)

lemma scrape_reddit_content_sleeps: "sleeps (snd (scrape_reddit_content E w)) = sleeps w"
  using reddit_loop_sleeps [of E reddit_feeds "[]" w]
  by (cases "reddit_loop E reddit_feeds [] w") (simp add: scrape_reddit_content_def)

lemma scrape_all_sources_sleeps: "sleeps (snd (scrape_all_sources E w)) = sleeps w"
proof (cases "session_fault E")
  case (Some e)
  then show ?thesis by (simp add: scrape_all_sources_def)
next
  case None
  obtain a w1 where 1: "scrape_apple_docs E w = (Inr a, w1)"
    using scrape_apple_docs_returns by blast
  obtain y w2 where 2: "scrape_youtube_content E w1 = (Inr y, w2)"
    using scrape_youtube_content_returns by blast
  obtain g w3 where 3: "scrape_github_trending E w2 = (Inr g, w3)"
    using scrape_github_trending_returns by blast
  obtain b w4 where 4: "scrape_swift_blog E w3 = (Inr b, w4)"
    using scrape_swift_blog_returns by blast
  obtain r w5 where 5: "scrape_reddit_content E w4 = (Inr r, w5)"
    using scrape_reddit_content_returns by blast
  have "sleeps w1 = sleeps w" using scrape_apple_docs_sleeps [of E w] 1 by simp
  moreover have "sleeps w2 = sleeps w1" using scrape_youtube_content_sleeps [of E w1] 2 by simp
  moreover have "sleeps w3 = sleeps w2" using scrape_github_trending_sleeps [of E w2] 3 by simp
  moreover have "sleeps w4 = sleeps w3" using scrape_swift_blog_sleeps [of E w3] 4 by simp
  moreover have "sleeps w5 = sleeps w4" using scrape_reddit_content_sleeps [of E w4] 5 by simp
  ultimately show ?thesis
    using None 1 2 3 4 5 by (simp add: scrape_all_sources_def)
qed

lemma analyze_content_sleeps: "sleeps (snd (analyze_content E content w)) = sleeps w"
  by (simp add: analyze_content_def chat_completion_def Let_def sleeps_emit
        split: llm_reply.splits)

lemma generate_course_updates_sleeps:
  "sleeps (snd (generate_course_updates E insights w)) = sleeps w"
  by (simp add: generate_course_updates_def chat_completion_def Let_def sleeps_emit
        split: llm_reply.splits)

lemma deploy_updates_sleeps: "sleeps (snd (deploy_updates E w)) = sleeps w"
  by (rule sleeps_log_eq [OF deploy_updates_log]) (simp split: option.splits)

lemma create_or_update_file_sleeps:
  "sleeps (snd (create_or_update_file E f ts c w)) = sleeps w"
  using create_or_update_file_log [of E f ts c w] by (auto simp: sleeps_def)

lemma update_summary_file_sleeps: "sleeps (snd (update_summary_file E ts w)) = sleeps w"
  using update_summary_file_log [of E ts w] by (auto simp: sleeps_def)

lemma update_course_repo_sleeps: "sleeps (snd (update_course_repo E new_content w)) = sleeps w"
proof (cases "truthy new_content")
  case False
  then show ?thesis by (simp add: update_course_repo_def)
next
  case True
  show ?thesis
  proof (cases "py_in ''new_chapter'' new_content")
    case (Inl e)
    with True show ?thesis
      by (simp add: update_course_repo_def update_course_repo_try_def sleeps_emit)
  next
    case (Inr b)
    show ?thesis
    proof (cases b)
      case False
      with True Inr show ?thesis
        by (simp add: update_course_repo_def update_course_repo_try_def sleeps_emit)
    next
      case b: True
      show ?thesis
      proof (cases "subscript new_content ''new_chapter''")
        case (Inl e)
        with True Inr b show ?thesis
          by (simp add: update_course_repo_def update_course_repo_try_def sleeps_emit)
      next
        case fc: (Inr fc)
        obtain r1 w1 where c: "create_or_update_file E (chapter_path (today E)) (today E) fc w = (r1, w1)"
          by (cases "create_or_update_file E (chapter_path (today E)) (today E) fc w")
        have s1: "sleeps w1 = sleeps w"
          using create_or_update_file_sleeps [of E "chapter_path (today E)" "today E" fc w] c
          by simp
        show ?thesis
        proof (cases r1)
          case (Inl e)
          with True Inr b fc c s1 show ?thesis
            by (simp add: update_course_repo_def update_course_repo_try_def sleeps_emit)
        next
          case r1: (Inr u)
          obtain r2 w2 where s: "update_summary_file E (today E) w1 = (r2, w2)"
            by (cases "update_summary_file E (today E) w1")
          have r2: "r2 = Inr ()"
            using update_summary_file_returns [of E "today E" w1] s by simp
          have s2: "sleeps w2 = sleeps w1"
            using update_summary_file_sleeps [of E "today E" w1] s by simp
          show ?thesis
            using True Inr b fc c r1 s r2 s1 s2
            by (simp add: update_course_repo_def update_course_repo_try_def sleeps_emit)
        qed
      qed
    qed
  qed
qed

lemma cycle_steps_sleeps: "sleeps (snd (cycle_steps E w)) = sleeps w"
proof (cases "session_fault E")
  case (Some e)
  then show ?thesis by (simp add: cycle_steps_raises sleeps_emit)
next
  case None
  let ?nc = "case generation_reply E of Parsed j \<Rightarrow> j | _ \<Rightarrow> JDict []"
  let ?w0 = "emit (Print ''Starting content cycle'') w"
  obtain harvested w1 where 1: "scrape_all_sources E ?w0 = (Inr harvested, w1)"
    using scrape_all_sources_returns [OF None] by blast
  obtain insights w2 where 2: "analyze_content E harvested w1 = (Inr insights, w2)"
    using analyze_content_returns by blast
  obtain w3 where 3: "generate_course_updates E insights w2 = (Inr ?nc, w3)"
    using generate_course_updates_call [of E insights w2] by simp
  obtain r4 w4 where 4: "update_course_repo E ?nc w3 = (r4, w4)"
    by (cases "update_course_repo E ?nc w3")
  have r4: "r4 = Inr ()"
    using update_course_repo_returns [of E ?nc w3] 4 by simp
  have "sleeps w1 = sleeps w"
    using scrape_all_sources_sleeps [of E ?w0] 1 by (simp add: sleeps_emit)
  moreover have "sleeps w2 = sleeps w1" using analyze_content_sleeps [of E harvested w1] 2 by simp
  moreover have "sleeps w3 = sleeps w2"
    using generate_course_updates_sleeps [of E insights w2] 3 by simp
  moreover have "sleeps w4 = sleeps w3" using update_course_repo_sleeps [of E ?nc w3] 4 by simp
  moreover have "cycle_steps E w = deploy_updates E w4"
    using 1 2 3 4 r4 by (simp add: cycle_steps_def)
  ultimately show ?thesis by (simp add: deploy_updates_sleeps)
qed

lemma cycle_iteration_sleeps:
  "sleeps (cycle_iteration E w) =
     sleeps w @ [if fst (cycle_steps E w) = Inr () then Sleep 21600 else Sleep 1800]"
proof -
  obtain r w1 where c: "cycle_steps E w = (r, w1)"
    by (cases "cycle_steps E w")
  have "sleeps w1 = sleeps w" using cycle_steps_sleeps [of E w] c by simp
  then show ?thesis using c by (cases r) (simp_all add: cycle_iteration_def sleeps_emit)
qed

lemma run_autonomous_cycle_sleeps:
  "sleeps (snd (run_autonomous_cycle fuel envs n w)) =
     sleeps w @
       map (\<lambda>i. if fst (cycle_steps (envs (n + i)) (snd (run_autonomous_cycle i envs n w)))
                   = Inr ()
                then Sleep 21600 else Sleep 1800) [0..<fuel]"
proof (induction fuel)
  case 0
  show ?case by simp
next
  case (Suc fuel)
  show ?case
    unfolding run_autonomous_cycle_last
    by (simp add: cycle_iteration_sleeps Suc.IH del: run_autonomous_cycle.simps)
qed

lemma video_of_Inr:
  "video_of e p = Inr v \<Longrightarrow> published_parsed e = Some p \<Longrightarrow> v = the_video e"
  by (auto simp: video_of_def the_video_def split: option.splits)

lemma youtube_entries_upto:
  "snd (youtube_entries t es []) =
     map the_video (filter (\<lambda>e. age t e \<le> days 7) (takeWhile (\<lambda>e. \<not> video_raises t e) es))"
proof (induction es)
  case Nil
  show ?case by simp
next
  case (Cons e es)
  show ?case
  proof (cases "published_parsed e")
    case None
    then show ?thesis by (simp add: video_raises_def)
  next
    case (Some p)
    show ?thesis
    proof (cases "t - p \<le> days 7")
      case False
      with Some Cons.IH show ?thesis by (simp add: video_raises_def age_def)
    next
      case True
      show ?thesis
      proof (cases "video_of e p")
        case (Inl x)
        with Some True show ?thesis by (simp add: video_raises_def)
      next
        case (Inr v)
        then have v: "v = the_video e" using Some by (rule video_of_Inr)
        show ?thesis
          using Some True Inr v Cons.IH youtube_entries_acc [of t es "[the_video e]"]
          by (simp add: video_raises_def age_def)
      qed
    qed
  qed
qed

lemma reddit_posts_upto:
  "snd (reddit_posts sub ps []) =
     map (the_discussion sub)
       (filter (\<lambda>p. relevant (the (rp_title p))) (takeWhile (\<lambda>p. \<not> post_raises p) ps))"
proof (induction ps)
  case Nil
  show ?case by simp
next
  case (Cons p ps)
  show ?case
  proof (cases "rp_title p")
    case None
    then show ?thesis by (simp add: post_raises_def)
  next
    case (Some t)
    show ?thesis
    proof (cases "relevant t")
      case False
      with Some Cons.IH show ?thesis by (simp add: post_raises_def)
    next
      case True
      show ?thesis
      proof (cases "permalink p = None \<or> score p = None \<or> num_comments p = None")
        case raises: True
        with Some True show ?thesis
          by (auto simp: post_raises_def split: option.splits)
      next
        case False
        then obtain l s c where f: "permalink p = Some l" "score p = Some s"
            "num_comments p = Some c"
          by auto
        show ?thesis
          using Some True f Cons.IH reddit_posts_acc [of sub ps "[the_discussion sub p]"]
          by (simp add: post_raises_def the_discussion_def)
      qed
    qed
  qed
qed

lemma scrape_youtube_content_videos:
  "fst (scrape_youtube_content E w) =
     Inr (concat (map (youtube_channel_videos E) youtube_channels))"
  using youtube_loop_videos [of E youtube_channels "[]" w]
  by (cases "youtube_loop E youtube_channels [] w") (simp add: scrape_youtube_content_def)

lemma scrape_reddit_content_discussions:
  "fst (scrape_reddit_content E w) =
     Inr (concat (map (subreddit_discussions E) reddit_feeds))"
  using reddit_loop_discussions [of E reddit_feeds "[]" w]
  by (cases "reddit_loop E reddit_feeds [] w") (simp add: scrape_reddit_content_def)

lemma scrape_github_trending_rows:
  "fst (scrape_github_trending E w) =
     Inr (case github_trending_page E of
            Inl e \<Rightarrow> []
          | Inr items \<Rightarrow> map the_trending (filter (\<lambda>item. h2 item \<noteq> None) (take 10 items)))"
  by (simp add: scrape_github_trending_def github_items_filter split: sum.splits)

section \<open>The claims\<close>

text \<open>
  C1 (as amended). When the analysis call fails or its answer is not JSON, the Analysis Step
  returns the empty dict, and the Content Generator Step still calls the generator, once,
  with the empty insights: nothing in \<^verbatim>\<open>generate_course_updates\<close> tests its argument. What it
  returns is what the answer to that call parses to, and the empty dict when the call
  fails or the answer is not JSON: it returns the empty dict exactly when the call fails,
  the answer is not JSON, or the answer is the empty dict itself. The steps of the cycle
  complete without raising.
\<close>

theorem empty_insights_still_call_generator:
  assumes "session_fault E = None"
    and "analysis_reply E = CallRaises e \<or> analysis_reply E = NotJson e"
  shows "fst (analyze_content E content w') = Inr (JDict [])
       \<and> fst (generate_course_updates E (JDict []) w') =
           Inr (case generation_reply E of Parsed j \<Rightarrow> j | _ \<Rightarrow> JDict [])
       \<and> log (snd (generate_course_updates E (JDict []) w')) =
           log w' @ ChatCompletion (GenerationPrompt (JDict [])) #
             (case generation_reply E of
                CallRaises x \<Rightarrow> [PrintError ''Error generating content'' x]
              | NotJson x \<Rightarrow> [PrintError ''Error generating content'' x]
              | Parsed j \<Rightarrow> [])
       \<and> (fst (generate_course_updates E (JDict []) w') = Inr (JDict [])) =
           (generation_reply E = Parsed (JDict [])
            \<or> (\<exists>x. generation_reply E = CallRaises x)
            \<or> (\<exists>x. generation_reply E = NotJson x))
       \<and> (\<exists>evs evs'. log (snd (cycle_steps E w)) =
                  log w @ evs @ ChatCompletion (GenerationPrompt (JDict [])) # evs')
       \<and> fst (cycle_steps E w) = Inr ()"
proof -
  let ?nc = "case generation_reply E of Parsed j \<Rightarrow> j | _ \<Rightarrow> JDict []"
  have a: "fst (analyze_content E content w') = Inr (JDict [])" for content w'
    using assms(2) by (rule analyze_content_fails)
  have g: "\<exists>evs. log (snd (generate_course_updates E (JDict []) w')) =
                  log w' @ ChatCompletion (GenerationPrompt (JDict [])) # evs" for w'
    by (simp add: generate_course_updates_call)
  obtain harvested w1 insights w2 w3 evs where
      an: "analyze_content E harvested w1 = (Inr insights, w2)"
    and l2: "log w2 = log w @ evs"
    and ge: "generate_course_updates E insights w2 = (Inr ?nc, w3)"
    and cy: "cycle_steps E w = deploy_updates E (snd (update_course_repo E ?nc w3))"
    using cycle_steps_stages [OF assms(1), of w] by blast
  have ins: "insights = JDict []"
    using a [of harvested w1] an by simp
  obtain evs3 where l3: "log w3 = log w2 @ ChatCompletion (GenerationPrompt (JDict [])) # evs3"
    using g [of w2] ge ins by auto
  obtain evs4 where l4: "log (snd (update_course_repo E ?nc w3)) = log w3 @ evs4"
    using update_course_repo_events [of E ?nc w3] by blast
  obtain evs5 where l5: "log (snd (cycle_steps E w)) =
      log (snd (update_course_repo E ?nc w3)) @ evs5"
    unfolding cy deploy_updates_log by blast
  have "log (snd (cycle_steps E w)) =
      log w @ evs @ ChatCompletion (GenerationPrompt (JDict [])) # (evs3 @ evs4 @ evs5)"
    using l2 l3 l4 l5 by simp
  then have c: "\<exists>evs evs'. log (snd (cycle_steps E w)) =
                  log w @ evs @ ChatCompletion (GenerationPrompt (JDict [])) # evs'"
    by blast
  have g': "log (snd (generate_course_updates E (JDict []) w')) =
           log w' @ ChatCompletion (GenerationPrompt (JDict [])) #
             (case generation_reply E of
                CallRaises x \<Rightarrow> [PrintError ''Error generating content'' x]
              | NotJson x \<Rightarrow> [PrintError ''Error generating content'' x]
              | Parsed j \<Rightarrow> [])"
    by (simp add: generate_course_updates_call)
  have r: "fst (generate_course_updates E (JDict []) w') =
           Inr (case generation_reply E of Parsed j \<Rightarrow> j | _ \<Rightarrow> JDict [])"
    by (simp add: generate_course_updates_call)
  have e: "(fst (generate_course_updates E (JDict []) w') = Inr (JDict [])) =
           (generation_reply E = Parsed (JDict [])
            \<or> (\<exists>x. generation_reply E = CallRaises x)
            \<or> (\<exists>x. generation_reply E = NotJson x))"
    unfolding r by (cases "generation_reply E") simp_all
  show ?thesis
    using a [of content w'] c cycle_steps_returns [OF assms(1), of w] e
    by (simp add: r g')
qed

text \<open>The analysis call fails and the generation call answers with a chapter.\<close>

theorem empty_insights_still_call_generator_witness:
  "session_fault env_chapter = None
   \<and> analysis_reply env_chapter = CallRaises OpenAIError
   \<and> fst (analyze_content env_chapter
            \<lparr>apple_updates = [], youtube_videos = [], github_trending = [], swift_blog = [],
             reddit_discussions = []\<rparr> world0) = Inr (JDict [])
   \<and> generate_course_updates env_chapter (JDict []) world0 =
       (Inr chapter_json, emit (ChatCompletion (GenerationPrompt (JDict []))) world0)
   \<and> fst (cycle_steps env_chapter world0) = Inr ()"
proof -
  have s: "session_fault env_chapter = None"
    by (simp add: env_chapter_def env_down_def)
  have a: "analysis_reply env_chapter = CallRaises OpenAIError
             \<or> analysis_reply env_chapter = NotJson OpenAIError"
    by (simp add: env_chapter_def env_down_def)
  show ?thesis
    using empty_insights_still_call_generator [OF s a,
            of "\<lparr>apple_updates = [], youtube_videos = [], github_trending = [],
                 swift_blog = [], reddit_discussions = []\<rparr>" world0 world0]
    by (simp add: env_chapter_def env_down_def generate_course_updates_def
          chat_completion_def Let_def)
qed

text \<open>The claim as stated fails there: after the failed analysis call the generator is
  called with the empty insights, the chapter it returns is published, and the file is in
  the tree afterwards.\<close>

theorem empty_insights_counterexample:
  "analysis_reply env_chapter = CallRaises OpenAIError
   \<and> log (snd (cycle_steps env_chapter world0)) =
     [Print ''Starting content cycle'',
      PrintError ''Error scraping Apple docs'' ClientError,
      PrintError ''Error scraping YouTube channel UC2D6eRvCeMtcF5OGHf1-trw'' ClientError,
      PrintError ''Error scraping YouTube channel UCuP2vJ6kRutQBfRmdcI92mA'' ClientError,
      PrintError ''Error scraping YouTube channel UC_7ZKZSqtXAcbmhEzVyg8Pw'' ClientError,
      PrintError ''Error scraping GitHub trending'' ClientError,
      PrintError ''Error scraping Swift blog'' ClientError,
      PrintError ''Error scraping Reddit r/iOSProgramming'' ClientError,
      PrintError ''Error scraping Reddit r/swift'' ClientError,
      ChatCompletion (AnalysisPrompt [] [] [] [] []),
      PrintError ''Error analyzing content'' OpenAIError,
      ChatCompletion (GenerationPrompt (JDict [])),
      GetContents ''book/src/auto-generated/chapter_20260101.md'',
      CreateFile ''book/src/auto-generated/chapter_20260101.md''
        ''Auto-generate: New chapter 20260101'' (JStr ''# Hello''),
      GetContents ''book/src/SUMMARY.md'',
      UpdateFile ''book/src/SUMMARY.md'' ''Auto-update: Add chapter 20260101 to summary''
        (JStr (''# Summary\<newline>\<newline># Auto-Generated Content\<newline>\<newline>''
               @ reference_line ''20260101''))
        ''# Summary\<newline>'',
      Print ''Repository updated with new content'',
      GetWorkflow ''deploy.yml'',
      CreateDispatch ''main'',
      Print ''Deployment triggered'']
   \<and> files (snd (cycle_steps env_chapter world0)) ''book/src/auto-generated/chapter_20260101.md''
       = Some ''# Hello''"
  by (simp add: cycle_steps_def harvest_down
        analyze_content_def generate_course_updates_def chat_completion_def
        update_course_repo_def update_course_repo_try_def create_or_update_file_def
        update_summary_file_def update_summary_try_def get_contents_def update_file_def
        create_file_def chapter_path_def summary_path_def summary_header_def reference_line_def
        deploy_updates_def get_workflow_def create_dispatch_def chapter_json_def
        env_chapter_def env_down_def world0_def emit_def Let_def)

text \<open>
  C2 (as amended). A failed write of the Publisher does not leave the Publisher:
  \<^verbatim>\<open>update_course_repo\<close> always returns, and when the write of the chapter raises, the
  exception is printed there. The scheduler therefore sees a cycle that completed: every
  cycle whose session opens goes on to the deployment step and ends with the long sleep
  of 21600 seconds. The Publisher repeats no call: the events of one invocation are
  pairwise distinct.
\<close>

theorem publish_failure_contained:
  "fst (update_course_repo E new_content w) = Inr ()
   \<and> (\<exists>evs. log (snd (update_course_repo E new_content w)) = log w @ evs \<and> distinct evs)
   \<and> (map_of kvs ''new_chapter'' = Some file_content
        \<and> fst (create_or_update_file E (chapter_path (today E)) (today E) file_content w) = Inl e
      \<longrightarrow> log (snd (update_course_repo E (JDict kvs) w)) =
            log (snd (create_or_update_file E (chapter_path (today E)) (today E) file_content w))
              @ [PrintError ''Error updating repository'' e])
   \<and> (session_fault E = None \<longrightarrow>
        (\<exists>w1. cycle_steps E w = (Inr (), w1)
            \<and> cycle_iteration E w =
                emit (Sleep 21600) (emit (Print ''Cycle completed. Sleeping for 6 hours...'') w1)))"
proof -
  have c: "map_of kvs ''new_chapter'' = Some file_content
        \<and> fst (create_or_update_file E (chapter_path (today E)) (today E) file_content w) = Inl e
      \<longrightarrow> log (snd (update_course_repo E (JDict kvs) w)) =
            log (snd (create_or_update_file E (chapter_path (today E)) (today E) file_content w))
              @ [PrintError ''Error updating repository'' e]"
    by (cases "create_or_update_file E (chapter_path (today E)) (today E) file_content w")
       (auto simp: update_course_repo_def update_course_repo_try_def)
  have s: "session_fault E = None \<longrightarrow>
        (\<exists>w1. cycle_steps E w = (Inr (), w1)
            \<and> cycle_iteration E w =
                emit (Sleep 21600) (emit (Print ''Cycle completed. Sleeping for 6 hours...'') w1))"
  proof
    assume "session_fault E = None"
    then have "fst (cycle_steps E w) = Inr ()" by (rule cycle_steps_returns)
    then show "\<exists>w1. cycle_steps E w = (Inr (), w1)
            \<and> cycle_iteration E w =
                emit (Sleep 21600) (emit (Print ''Cycle completed. Sleeping for 6 hours...'') w1)"
      by (cases "cycle_steps E w") (simp add: cycle_iteration_def)
  qed
  show ?thesis
    using update_course_repo_returns [of E new_content w]
      update_course_repo_events [of E new_content w] c s
    by blast
qed

text \<open>GitHub rejects the creation of the chapter with a 409.\<close>

theorem publish_failure_contained_witness:
  "map_of [(''new_chapter'', JStr ''# Hello'')] ''new_chapter'' = Some (JStr ''# Hello'')
   \<and> fst (create_or_update_file env_conflict (chapter_path ''20260101'') ''20260101''
            (JStr ''# Hello'') world0) = Inl (GithubException 409)
   \<and> update_course_repo env_conflict chapter_json world0 =
       (Inr (),
        world0\<lparr>log :=
          [GetContents (chapter_path ''20260101''),
           CreateFile (chapter_path ''20260101'') ''Auto-generate: New chapter 20260101''
             (JStr ''# Hello''),
           PrintError ''Error updating repository'' (GithubException 409)]\<rparr>)
   \<and> session_fault env_conflict = None
   \<and> last (log (cycle_iteration env_conflict world0)) = Sleep 21600"
proof -
  have t: "today env_conflict = ''20260101''"
    by (simp add: env_conflict_def env_chapter_def env_down_def)
  have c: "create_or_update_file env_conflict (chapter_path ''20260101'') ''20260101''
            (JStr ''# Hello'') world0 =
       (Inl (GithubException 409),
        world0\<lparr>log :=
          [GetContents (chapter_path ''20260101''),
           CreateFile (chapter_path ''20260101'') ''Auto-generate: New chapter 20260101''
             (JStr ''# Hello'')]\<rparr>)"
    by (simp add: create_or_update_file_def get_contents_def create_file_def
          env_conflict_def env_chapter_def env_down_def world0_def emit_def Let_def
          chapter_not_summary)
  have u: "update_course_repo env_conflict chapter_json world0 =
       (Inr (),
        world0\<lparr>log :=
          [GetContents (chapter_path ''20260101''),
           CreateFile (chapter_path ''20260101'') ''Auto-generate: New chapter 20260101''
             (JStr ''# Hello''),
           PrintError ''Error updating repository'' (GithubException 409)]\<rparr>)"
    using c t
    by (simp add: update_course_repo_def update_course_repo_try_def chapter_json_def emit_def
          Let_def world0_def)
  have s: "session_fault env_conflict = None"
    by (simp add: env_conflict_def env_chapter_def env_down_def)
  show ?thesis
    using publish_failure_contained [of env_conflict chapter_json world0
            "[(''new_chapter'', JStr ''# Hello'')]" "JStr ''# Hello''" "GithubException 409"]
      c u s t
    by (auto simp: emit_def)
qed

text \<open>The claim as stated fails there: the creation of the chapter is rejected, nothing is
  written, the exception is printed by the Publisher, the deployment is triggered and the
  scheduler sleeps 21600 seconds, not 1800.\<close>

theorem publish_failure_counterexample:
  "log (cycle_iteration env_conflict world0) =
     [Print ''Starting content cycle'',
      PrintError ''Error scraping Apple docs'' ClientError,
      PrintError ''Error scraping YouTube channel UC2D6eRvCeMtcF5OGHf1-trw'' ClientError,
      PrintError ''Error scraping YouTube channel UCuP2vJ6kRutQBfRmdcI92mA'' ClientError,
      PrintError ''Error scraping YouTube channel UC_7ZKZSqtXAcbmhEzVyg8Pw'' ClientError,
      PrintError ''Error scraping GitHub trending'' ClientError,
      PrintError ''Error scraping Swift blog'' ClientError,
      PrintError ''Error scraping Reddit r/iOSProgramming'' ClientError,
      PrintError ''Error scraping Reddit r/swift'' ClientError,
      ChatCompletion (AnalysisPrompt [] [] [] [] []),
      PrintError ''Error analyzing content'' OpenAIError,
      ChatCompletion (GenerationPrompt (JDict [])),
      GetContents ''book/src/auto-generated/chapter_20260101.md'',
      CreateFile ''book/src/auto-generated/chapter_20260101.md''
        ''Auto-generate: New chapter 20260101'' (JStr ''# Hello''),
      PrintError ''Error updating repository'' (GithubException 409),
      GetWorkflow ''deploy.yml'',
      CreateDispatch ''main'',
      Print ''Deployment triggered'',
      Print ''Cycle completed. Sleeping for 6 hours...'',
      Sleep 21600]
   \<and> files (cycle_iteration env_conflict world0) = files world0"
  by (simp add: cycle_iteration_def cycle_steps_def harvest_down
        analyze_content_def generate_course_updates_def chat_completion_def
        update_course_repo_def update_course_repo_try_def create_or_update_file_def
        get_contents_def create_file_def chapter_path_def summary_path_def
        deploy_updates_def get_workflow_def create_dispatch_def chapter_json_def
        env_conflict_def env_chapter_def env_down_def world0_def emit_def Let_def)

text \<open>
  C3. Invoking the Publisher twice with the same chapter and the same date, on a healthy
  repository that has the index and not yet the chapter: the first invocation creates the
  chapter and the second updates it (one creation followed by one update), as the claim
  says. Each invocation appends the reference line to the index without looking for it, so
  after both the index ends with the line twice, where the claim says once.
\<close>

theorem publish_twice_duplicates_reference:
  assumes "remote_fault E = (\<lambda>call. None)"
    and "files w (chapter_path (today E)) = None"
    and "files w summary_path = Some index"
    and "map_of kvs ''new_chapter'' = Some (JStr chapter)"
  shows "log (snd (update_course_repo E (JDict kvs) (snd (update_course_repo E (JDict kvs) w)))) =
           log w @
             [GetContents (chapter_path (today E)),
              CreateFile (chapter_path (today E)) (''Auto-generate: New chapter '' @ today E)
                (JStr chapter),
              GetContents summary_path,
              UpdateFile summary_path (''Auto-update: Add chapter '' @ today E @ '' to summary'')
                (JStr (index_with_reference index (today E))) (blob_sha E index),
              Print ''Repository updated with new content'',
              GetContents (chapter_path (today E)),
              UpdateFile (chapter_path (today E)) (''Auto-update: New chapter '' @ today E)
                (JStr chapter) (blob_sha E chapter),
              GetContents summary_path,
              UpdateFile summary_path (''Auto-update: Add chapter '' @ today E @ '' to summary'')
                (JStr (index_with_reference index (today E) @ reference_line (today E)))
                (blob_sha E (index_with_reference index (today E))),
              Print ''Repository updated with new content'']
       \<and> files (snd (update_course_repo E (JDict kvs) (snd (update_course_repo E (JDict kvs) w))))
           summary_path =
           Some ((if \<not> str_contains summary_header index
                  then index @ ''\<newline># Auto-Generated Content\<newline>\<newline>''
                  else index)
                 @ reference_line (today E) @ reference_line (today E))"
proof -
  let ?f = "chapter_path (today E)"
  let ?i1 = "index_with_reference index (today E)"
  let ?w1 = "snd (update_course_repo E (JDict kvs) w)"
  have w1: "update_course_repo E (JDict kvs) w =
           (Inr (),
            w\<lparr>files := (files w)(?f \<mapsto> chapter, summary_path \<mapsto> ?i1),
              log := log w @
                [GetContents ?f,
                 CreateFile ?f (''Auto-generate: New chapter '' @ today E) (JStr chapter),
                 GetContents summary_path,
                 UpdateFile summary_path
                   (''Auto-update: Add chapter '' @ today E @ '' to summary'')
                   (JStr ?i1) (blob_sha E index),
                 Print ''Repository updated with new content'']\<rparr>)"
    using assms by (rule publish_creates)
  have f1: "files ?w1 ?f = Some chapter"
    unfolding w1 using chapter_not_summary [of "today E"] by simp
  have s1: "files ?w1 summary_path = Some ?i1"
    unfolding w1 by simp
  have w2: "update_course_repo E (JDict kvs) ?w1 =
           (Inr (),
            ?w1\<lparr>files := (files ?w1)(?f \<mapsto> chapter,
                       summary_path \<mapsto> index_with_reference ?i1 (today E)),
              log := log ?w1 @
                [GetContents ?f,
                 UpdateFile ?f (''Auto-update: New chapter '' @ today E) (JStr chapter)
                   (blob_sha E chapter),
                 GetContents summary_path,
                 UpdateFile summary_path
                   (''Auto-update: Add chapter '' @ today E @ '' to summary'')
                   (JStr (index_with_reference ?i1 (today E))) (blob_sha E ?i1),
                 Print ''Repository updated with new content'']\<rparr>)"
    using assms(1) f1 s1 assms(4) by (rule publish_updates)
  have l1: "log ?w1 = log w @
                [GetContents ?f,
                 CreateFile ?f (''Auto-generate: New chapter '' @ today E) (JStr chapter),
                 GetContents summary_path,
                 UpdateFile summary_path
                   (''Auto-update: Add chapter '' @ today E @ '' to summary'')
                   (JStr ?i1) (blob_sha E index),
                 Print ''Repository updated with new content'']"
    unfolding w1 by simp
  show ?thesis
    unfolding w2 using l1
    by (simp add: index_with_reference_again) (simp add: index_with_reference_def)
qed

text \<open>On the index \<^verbatim>\<open># Summary\<close>, with the chapter of 2026-01-01.\<close>

theorem publish_twice_duplicates_reference_witness:
  "remote_fault env_chapter = (\<lambda>call. None)
   \<and> files world0 (chapter_path (today env_chapter)) = None
   \<and> files world0 summary_path = Some ''# Summary\<newline>''
   \<and> files (snd (update_course_repo env_chapter chapter_json
                (snd (update_course_repo env_chapter chapter_json world0))))
        ''book/src/SUMMARY.md'' =
       Some (''# Summary\<newline>\<newline># Auto-Generated Content\<newline>\<newline>''
             @ ''- [Auto-Generated 20260101](./auto-generated/chapter_20260101.md)\<newline>''
             @ ''- [Auto-Generated 20260101](./auto-generated/chapter_20260101.md)\<newline>'')"
proof -
  have 1: "remote_fault env_chapter = (\<lambda>call. None)"
    by (simp add: env_chapter_def env_down_def)
  have 2: "files world0 (chapter_path (today env_chapter)) = None"
    by (simp add: world0_def chapter_not_summary)
  have 3: "files world0 summary_path = Some ''# Summary\<newline>''"
    by (simp add: world0_def)
  have 4: "map_of [(''new_chapter'', JStr ''# Hello'')] ''new_chapter'' = Some (JStr ''# Hello'')"
    by simp
  have h: "\<not> str_contains summary_header ''# Summary\<newline>''"
    by (simp add: summary_header_def)
  show ?thesis
    using publish_twice_duplicates_reference [OF 1 2 3 4] 1 2 3 h
    by (simp add: chapter_json_def summary_path_def reference_line_def env_chapter_def
          env_down_def)
qed

text \<open>
  C4 (as amended). The deployment does not depend on what the Publisher did:
  \<^verbatim>\<open>update_course_repo\<close> reports nothing, and every cycle whose session opens ends with
  \<^verbatim>\<open>deploy_updates\<close>, which looks the workflow up and, when that succeeds, requests the
  dispatch on \<^verbatim>\<open>main\<close>. Only a cycle whose session cannot be opened triggers no deployment.
\<close>

theorem deployment_always_triggered:
  "(session_fault E = None \<longrightarrow>
      fst (cycle_steps E w) = Inr ()
      \<and> (\<exists>evs. log (snd (cycle_steps E w)) =
            log w @ evs @
              (case remote_fault E (GetWorkflow ''deploy.yml'') of
                 Some e \<Rightarrow> [GetWorkflow ''deploy.yml'',
                            PrintError ''Error triggering deployment'' e]
               | None \<Rightarrow>
                   (case remote_fault E (CreateDispatch ''main'') of
                      Some e \<Rightarrow> [GetWorkflow ''deploy.yml'', CreateDispatch ''main'',
                                 PrintError ''Error triggering deployment'' e]
                    | None \<Rightarrow> [GetWorkflow ''deploy.yml'', CreateDispatch ''main'',
                                Print ''Deployment triggered'']))))
   \<and> (session_fault E = Some x \<longrightarrow>
        cycle_steps E w = (Inl x, emit (Print ''Starting content cycle'') w))"
proof -
  let ?nc = "case generation_reply E of Parsed j \<Rightarrow> j | _ \<Rightarrow> JDict []"
  let ?d = "case remote_fault E (GetWorkflow ''deploy.yml'') of
                 Some e \<Rightarrow> [GetWorkflow ''deploy.yml'',
                            PrintError ''Error triggering deployment'' e]
               | None \<Rightarrow>
                   (case remote_fault E (CreateDispatch ''main'') of
                      Some e \<Rightarrow> [GetWorkflow ''deploy.yml'', CreateDispatch ''main'',
                                 PrintError ''Error triggering deployment'' e]
                    | None \<Rightarrow> [GetWorkflow ''deploy.yml'', CreateDispatch ''main'',
                                Print ''Deployment triggered''])"
  have "\<exists>evs. log (snd (cycle_steps E w)) = log w @ evs @ ?d" if s: "session_fault E = None"
  proof -
    obtain content w1 insights w2 w3 evs where
        an: "analyze_content E content w1 = (Inr insights, w2)"
      and l2: "log w2 = log w @ evs"
      and ge: "generate_course_updates E insights w2 = (Inr ?nc, w3)"
      and cy: "cycle_steps E w = deploy_updates E (snd (update_course_repo E ?nc w3))"
      using cycle_steps_stages [OF s, of w] by blast
    obtain evs3 where l3: "log w3 = log w2 @ evs3"
      using generate_course_updates_call [of E insights w2] ge by auto
    obtain evs4 where l4: "log (snd (update_course_repo E ?nc w3)) = log w3 @ evs4"
      using update_course_repo_events [of E ?nc w3] by blast
    have "log (snd (cycle_steps E w)) = log w @ (evs @ evs3 @ evs4) @ ?d"
      unfolding cy deploy_updates_log using l2 l3 l4 by simp
    then show ?thesis by blast
  qed
  then show ?thesis
    using cycle_steps_returns [of E w] cycle_steps_raises [of E x w] by blast
qed

text \<open>A cycle with nothing to publish, and a cycle that cannot open its session.\<close>

theorem deployment_always_triggered_witness:
  "session_fault env_down = None
   \<and> fst (cycle_steps env_down world0) = Inr ()
   \<and> (\<exists>evs. log (snd (cycle_steps env_down world0)) =
         log world0 @ evs @
           [GetWorkflow ''deploy.yml'', CreateDispatch ''main'', Print ''Deployment triggered''])
   \<and> session_fault env_offline = Some ClientError
   \<and> cycle_steps env_offline world0 =
       (Inl ClientError, emit (Print ''Starting content cycle'') world0)"
  using deployment_always_triggered [of env_down world0 ClientError]
    deployment_always_triggered [of env_offline world0 ClientError]
  by (simp add: env_down_def env_offline_def)

text \<open>The claim as stated fails there: the generator fails, the Publisher is given the
  empty dict and does nothing, the tree is unchanged, and the dispatch is requested.\<close>

theorem deployment_counterexample:
  "update_course_repo env_down (JDict []) world0 = (Inr (), world0)
   \<and> log (snd (cycle_steps env_down world0)) =
     [Print ''Starting content cycle'',
      PrintError ''Error scraping Apple docs'' ClientError,
      PrintError ''Error scraping YouTube channel UC2D6eRvCeMtcF5OGHf1-trw'' ClientError,
      PrintError ''Error scraping YouTube channel UCuP2vJ6kRutQBfRmdcI92mA'' ClientError,
      PrintError ''Error scraping YouTube channel UC_7ZKZSqtXAcbmhEzVyg8Pw'' ClientError,
      PrintError ''Error scraping GitHub trending'' ClientError,
      PrintError ''Error scraping Swift blog'' ClientError,
      PrintError ''Error scraping Reddit r/iOSProgramming'' ClientError,
      PrintError ''Error scraping Reddit r/swift'' ClientError,
      ChatCompletion (AnalysisPrompt [] [] [] [] []),
      PrintError ''Error analyzing content'' OpenAIError,
      ChatCompletion (GenerationPrompt (JDict [])),
      PrintError ''Error generating content'' OpenAIError,
      GetWorkflow ''deploy.yml'',
      CreateDispatch ''main'',
      Print ''Deployment triggered'']
   \<and> files (snd (cycle_steps env_down world0)) = files world0"
  by (simp add: cycle_steps_def harvest_down
        analyze_content_def generate_course_updates_def chat_completion_def
        update_course_repo_def deploy_updates_def get_workflow_def create_dispatch_def
        env_down_def world0_def emit_def Let_def)

text \<open>
  C5 (as amended). No adapter raises: each of the five returns a list in every environment.
  When the fetch of a single-origin adapter (Apple docs, GitHub trending, Swift blog)
  raises, the adapter returns the empty list. A multi-origin adapter (YouTube, Reddit)
  returns the empty list when the fetch of every one of its origins raises; when the fetch
  of one origin raises, it returns what it would return without that origin.
\<close>

theorem adapters_contain_fetch_failures:
  "(\<exists>r w'. scrape_apple_docs E w = (Inr r, w'))
   \<and> (\<exists>r w'. scrape_youtube_content E w = (Inr r, w'))
   \<and> (\<exists>r w'. scrape_github_trending E w = (Inr r, w'))
   \<and> (\<exists>r w'. scrape_swift_blog E w = (Inr r, w'))
   \<and> (\<exists>r w'. scrape_reddit_content E w = (Inr r, w'))
   \<and> (apple_docs_page E = Inl e \<longrightarrow> fst (scrape_apple_docs E w) = Inr [])
   \<and> (github_trending_page E = Inl e \<longrightarrow> fst (scrape_github_trending E w) = Inr [])
   \<and> (swift_blog_feed E = Inl e \<longrightarrow> fst (scrape_swift_blog E w) = Inr [])
   \<and> ((\<forall>channel_id \<in> set youtube_channels. \<exists>e. youtube_feed E channel_id = Inl e) \<longrightarrow>
        fst (scrape_youtube_content E w) = Inr [])
   \<and> ((\<forall>subreddit \<in> set reddit_feeds. \<exists>e. reddit_hot E subreddit = Inl e) \<longrightarrow>
        fst (scrape_reddit_content E w) = Inr [])
   \<and> (youtube_feed E c = Inl e \<longrightarrow>
        fst (youtube_loop E (cs1 @ c # cs2) [] w) = fst (youtube_loop E (cs1 @ cs2) [] w))
   \<and> (reddit_hot E s = Inl e \<longrightarrow>
        fst (reddit_loop E (ss1 @ s # ss2) [] w) = fst (reddit_loop E (ss1 @ ss2) [] w))"
proof -
  have y: "fst (scrape_youtube_content E w) =
             Inr (concat (map (youtube_channel_videos E) youtube_channels))"
    using youtube_loop_videos [of E youtube_channels "[]" w]
    by (cases "youtube_loop E youtube_channels [] w") (simp add: scrape_youtube_content_def)
  have r: "fst (scrape_reddit_content E w) =
             Inr (concat (map (subreddit_discussions E) reddit_feeds))"
    using reddit_loop_discussions [of E reddit_feeds "[]" w]
    by (cases "reddit_loop E reddit_feeds [] w") (simp add: scrape_reddit_content_def)
  have y0: "youtube_feed E c = Inl e \<Longrightarrow> youtube_channel_videos E c = []" for c e
    by (simp add: youtube_channel_videos_def)
  have r0: "reddit_hot E s = Inl e \<Longrightarrow> subreddit_discussions E s = []" for s e
    by (simp add: subreddit_discussions_def)
  have ya: "(\<forall>channel_id \<in> set youtube_channels. \<exists>e. youtube_feed E channel_id = Inl e) \<longrightarrow>
        fst (scrape_youtube_content E w) = Inr []"
    unfolding y using y0 by auto
  have ra: "(\<forall>subreddit \<in> set reddit_feeds. \<exists>e. reddit_hot E subreddit = Inl e) \<longrightarrow>
        fst (scrape_reddit_content E w) = Inr []"
    unfolding r using r0 by auto
  have yl: "youtube_feed E c = Inl e \<longrightarrow>
        fst (youtube_loop E (cs1 @ c # cs2) [] w) = fst (youtube_loop E (cs1 @ cs2) [] w)"
    unfolding youtube_loop_videos using y0 by auto
  have rl: "reddit_hot E s = Inl e \<longrightarrow>
        fst (reddit_loop E (ss1 @ s # ss2) [] w) = fst (reddit_loop E (ss1 @ ss2) [] w)"
    unfolding reddit_loop_discussions using r0 by auto
  have a: "apple_docs_page E = Inl e \<longrightarrow> fst (scrape_apple_docs E w) = Inr []"
    by (simp add: scrape_apple_docs_def)
  have g: "github_trending_page E = Inl e \<longrightarrow> fst (scrape_github_trending E w) = Inr []"
    by (simp add: scrape_github_trending_def)
  have b: "swift_blog_feed E = Inl e \<longrightarrow> fst (scrape_swift_blog E w) = Inr []"
    by (simp add: scrape_swift_blog_def)
  show ?thesis
    using scrape_apple_docs_returns [of E w] scrape_youtube_content_returns [of E w]
      scrape_github_trending_returns [of E w] scrape_swift_blog_returns [of E w]
      scrape_reddit_content_returns [of E w] a g b ya ra yl rl
    by blast
qed

text \<open>Every source is unreachable: every adapter returns the empty list.\<close>

theorem adapters_contain_fetch_failures_witness:
  "apple_docs_page env_down = Inl ClientError
   \<and> scrape_apple_docs env_down world0 =
       (Inr [], emit (PrintError ''Error scraping Apple docs'' ClientError) world0)
   \<and> fst (scrape_youtube_content env_down world0) = Inr []
   \<and> fst (scrape_reddit_content env_down world0) = Inr []
   \<and> fst (scrape_github_trending env_down world0) = Inr []
   \<and> fst (scrape_swift_blog env_down world0) = Inr []"
  using adapters_contain_fetch_failures [of env_down world0 ClientError]
  by (simp add: env_down_def scrape_apple_docs_def)

text \<open>The claim as stated fails there: the fetch of one YouTube channel and of one
  subreddit raises, and both adapters return records.\<close>

theorem fetch_failure_counterexample:
  "youtube_feed env_partial ''UCuP2vJ6kRutQBfRmdcI92mA'' = Inl ClientError
   \<and> List.member youtube_channels ''UCuP2vJ6kRutQBfRmdcI92mA''
   \<and> fst (scrape_youtube_content env_partial world0) =
       Inr [the_video (entry_at ''boundary'' 0), the_video (entry_at ''new'' (days 7)),
            the_video (entry_at ''third'' (days 7))]
   \<and> reddit_hot env_partial ''r/iOSProgramming'' = Inl ClientError
   \<and> List.member reddit_feeds ''r/iOSProgramming''
   \<and> fst (scrape_reddit_content env_partial world0) =
       Inr [the_discussion ''r/swift'' (three_posts ! 0), the_discussion ''r/swift'' (three_posts ! 2)]"
  by (simp add: scrape_youtube_content_def youtube_channels_def scrape_reddit_content_def
        reddit_feeds_def env_partial_def env_down_def three_entries_def entry_at_def
        video_of_def the_video_def three_posts_def the_discussion_def relevant_examples
        days_def world0_def)

text \<open>
  C6. The scheduler loop never terminates: however many iterations are followed, the method
  \<^verbatim>\<open>run_autonomous_cycle\<close> is still in its loop. Each iteration, the \<open>fuel+1\<close>-th for every
  \<open>fuel\<close>, runs the steps of one cycle in the world that the iterations before it left;
  when the steps complete it prints and sleeps the long interval of 6 hours (21600
  seconds), and when an exception reaches the scheduler it logs the exception and sleeps
  the short interval of 30 minutes (1800 seconds). The next iteration follows in both
  cases: after any number of iterations the log holds one sleep for each of them, in
  order, the long one for a cycle that completed and the short one for a cycle that raised.
\<close>

theorem scheduler_loop_never_returns:
  "fst (run_autonomous_cycle fuel envs n w) = None
   \<and> snd (run_autonomous_cycle (Suc fuel) envs n w) =
       (case cycle_steps (envs (n + fuel)) (snd (run_autonomous_cycle fuel envs n w)) of
          (Inr u, w1) \<Rightarrow>
            emit (Sleep 21600) (emit (Print ''Cycle completed. Sleeping for 6 hours...'') w1)
        | (Inl e, w1) \<Rightarrow>
            emit (Sleep 1800) (emit (PrintError ''Error in autonomous cycle'' e) w1))
   \<and> sleeps (snd (run_autonomous_cycle fuel envs n w)) =
       sleeps w @
         map (\<lambda>i. if fst (cycle_steps (envs (n + i)) (snd (run_autonomous_cycle i envs n w)))
                     = Inr ()
                  then Sleep 21600 else Sleep 1800) [0..<fuel]"
proof -
  have "snd (run_autonomous_cycle (Suc fuel) envs n w) =
       (case cycle_steps (envs (n + fuel)) (snd (run_autonomous_cycle fuel envs n w)) of
          (Inr u, w1) \<Rightarrow>
            emit (Sleep 21600) (emit (Print ''Cycle completed. Sleeping for 6 hours...'') w1)
        | (Inl e, w1) \<Rightarrow>
            emit (Sleep 1800) (emit (PrintError ''Error in autonomous cycle'' e) w1))"
    unfolding run_autonomous_cycle_last
    by (simp add: cycle_iteration_def split: prod.splits sum.splits)
  then show ?thesis
    using run_autonomous_cycle_running [of fuel envs n w]
      run_autonomous_cycle_sleeps [of fuel envs n w]
    by (simp del: run_autonomous_cycle.simps)
qed

text \<open>A run whose first cycle cannot open its session and whose second cycle completes:
  after two iterations the method is still in the loop, and it has slept 1800 seconds,
  then 21600 seconds.\<close>

theorem scheduler_loop_never_returns_witness:
  "fst (run_autonomous_cycle (Suc (Suc 0)) (\<lambda>i. if i = 0 then env_offline else env_down) 0 world0)
     = None
   \<and> log (snd (run_autonomous_cycle (Suc (Suc 0))
                 (\<lambda>i. if i = 0 then env_offline else env_down) 0 world0)) =
          [Print ''Starting content cycle'',
           PrintError ''Error in autonomous cycle'' ClientError,
           Sleep 1800,
           Print ''Starting content cycle'',
           PrintError ''Error scraping Apple docs'' ClientError,
           PrintError ''Error scraping YouTube channel UC2D6eRvCeMtcF5OGHf1-trw'' ClientError,
           PrintError ''Error scraping YouTube channel UCuP2vJ6kRutQBfRmdcI92mA'' ClientError,
           PrintError ''Error scraping YouTube channel UC_7ZKZSqtXAcbmhEzVyg8Pw'' ClientError,
           PrintError ''Error scraping GitHub trending'' ClientError,
           PrintError ''Error scraping Swift blog'' ClientError,
           PrintError ''Error scraping Reddit r/iOSProgramming'' ClientError,
           PrintError ''Error scraping Reddit r/swift'' ClientError,
           ChatCompletion (AnalysisPrompt [] [] [] [] []),
           PrintError ''Error analyzing content'' OpenAIError,
           ChatCompletion (GenerationPrompt (JDict [])),
           PrintError ''Error generating content'' OpenAIError,
           GetWorkflow ''deploy.yml'',
           CreateDispatch ''main'',
           Print ''Deployment triggered'',
           Print ''Cycle completed. Sleeping for 6 hours...'',
           Sleep 21600]
   \<and> sleeps (snd (run_autonomous_cycle (Suc (Suc 0))
                    (\<lambda>i. if i = 0 then env_offline else env_down) 0 world0)) =
       [Sleep 1800, Sleep 21600]"
proof -
  let ?envs = "\<lambda>i::nat. if i = 0 then env_offline else env_down"
  have o: "session_fault env_offline = Some ClientError"
    by (simp add: env_offline_def env_down_def)
  have 1: "snd (run_autonomous_cycle (Suc 0) ?envs 0 world0) =
             emit (Sleep 1800) (emit (PrintError ''Error in autonomous cycle'' ClientError)
               (emit (Print ''Starting content cycle'') world0))"
    using scheduler_loop_never_returns [of 0 ?envs 0 world0] cycle_steps_raises [OF o, of world0]
    by (simp del: run_autonomous_cycle.simps add: run_autonomous_cycle.simps(1))
  have 2: "snd (run_autonomous_cycle (Suc (Suc 0)) ?envs 0 world0) =
      emit (Sleep 21600) (emit (Print ''Cycle completed. Sleeping for 6 hours...'')
        (snd (cycle_steps env_down (snd (run_autonomous_cycle (Suc 0) ?envs 0 world0)))))"
    using scheduler_loop_never_returns [of "Suc 0" ?envs 0 world0]
      cycle_steps_returns [of env_down "snd (run_autonomous_cycle (Suc 0) ?envs 0 world0)"]
    by (cases "cycle_steps env_down (snd (run_autonomous_cycle (Suc 0) ?envs 0 world0))")
       (simp del: run_autonomous_cycle.simps add: env_down_def)
  have l: "log (snd (run_autonomous_cycle (Suc (Suc 0)) ?envs 0 world0)) =
          [Print ''Starting content cycle'',
           PrintError ''Error in autonomous cycle'' ClientError,
           Sleep 1800,
           Print ''Starting content cycle'',
           PrintError ''Error scraping Apple docs'' ClientError,
           PrintError ''Error scraping YouTube channel UC2D6eRvCeMtcF5OGHf1-trw'' ClientError,
           PrintError ''Error scraping YouTube channel UCuP2vJ6kRutQBfRmdcI92mA'' ClientError,
           PrintError ''Error scraping YouTube channel UC_7ZKZSqtXAcbmhEzVyg8Pw'' ClientError,
           PrintError ''Error scraping GitHub trending'' ClientError,
           PrintError ''Error scraping Swift blog'' ClientError,
           PrintError ''Error scraping Reddit r/iOSProgramming'' ClientError,
           PrintError ''Error scraping Reddit r/swift'' ClientError,
           ChatCompletion (AnalysisPrompt [] [] [] [] []),
           PrintError ''Error analyzing content'' OpenAIError,
           ChatCompletion (GenerationPrompt (JDict [])),
           PrintError ''Error generating content'' OpenAIError,
           GetWorkflow ''deploy.yml'',
           CreateDispatch ''main'',
           Print ''Deployment triggered'',
           Print ''Cycle completed. Sleeping for 6 hours...'',
           Sleep 21600]"
    unfolding 2 1
    by (simp add: cycle_steps_def harvest_down
          analyze_content_def generate_course_updates_def chat_completion_def
          update_course_repo_def deploy_updates_def get_workflow_def create_dispatch_def
          env_down_def world0_def emit_def Let_def)
  show ?thesis
    using scheduler_loop_never_returns [of "Suc (Suc 0)" ?envs 0 world0] l
    by (simp del: run_autonomous_cycle.simps add: sleeps_def)
qed



text \<open>
  C8 (as amended). The thresholds of \<^verbatim>\<open>AgentConfig\<close> are read by no adapter; what enters
  the snapshot is decided without them. The videos of the snapshot are, for each channel
  whose fetch succeeds, the entries among the first 5 of the feed, before the first one at
  which the loop raises, that are at most 7 days old. Its repositories are the rows among
  the first 10 of the trending page that have a title element. Its discussions are, for
  each subreddit whose fetch succeeds, the posts of the listing, before the first one at
  which the loop raises, whose title contains one of the adapter's keywords. No view
  count, star count or score takes part.
\<close>

theorem thresholds_not_applied:
  assumes "session_fault E = None"
  shows "\<exists>snapshot w'.
           scrape_all_sources E w = (Inr snapshot, w')
         \<and> youtube_videos snapshot =
             concat (map (\<lambda>channel_id.
                       case youtube_feed E channel_id of
                         Inl e \<Rightarrow> []
                       | Inr entries \<Rightarrow>
                           map the_video
                             (filter (\<lambda>entry. age (now E) entry \<le> days 7)
                                (takeWhile (\<lambda>entry. \<not> video_raises (now E) entry)
                                   (take 5 entries))))
                     youtube_channels)
         \<and> github_trending snapshot =
             (case github_trending_page E of
                Inl e \<Rightarrow> []
              | Inr items \<Rightarrow>
                  map the_trending (filter (\<lambda>item. h2 item \<noteq> None) (take 10 items)))
         \<and> reddit_discussions snapshot =
             concat (map (\<lambda>subreddit.
                       case reddit_hot E subreddit of
                         Inl e \<Rightarrow> []
                       | Inr children \<Rightarrow>
                           map (the_discussion subreddit)
                             (filter (\<lambda>post_data. relevant (the (rp_title post_data)))
                                (takeWhile (\<lambda>post_data. \<not> post_raises post_data) children)))
                     reddit_feeds)"
proof -
  obtain a w1 where 1: "scrape_apple_docs E w = (Inr a, w1)"
    using scrape_apple_docs_returns by blast
  obtain y w2 where 2: "scrape_youtube_content E w1 = (Inr y, w2)"
    using scrape_youtube_content_returns by blast
  obtain g w3 where 3: "scrape_github_trending E w2 = (Inr g, w3)"
    using scrape_github_trending_returns by blast
  obtain b w4 where 4: "scrape_swift_blog E w3 = (Inr b, w4)"
    using scrape_swift_blog_returns by blast
  obtain r w5 where 5: "scrape_reddit_content E w4 = (Inr r, w5)"
    using scrape_reddit_content_returns by blast
  have ych: "youtube_channel_videos E = (\<lambda>channel_id.
                       case youtube_feed E channel_id of
                         Inl e \<Rightarrow> []
                       | Inr entries \<Rightarrow>
                           map the_video
                             (filter (\<lambda>entry. age (now E) entry \<le> days 7)
                                (takeWhile (\<lambda>entry. \<not> video_raises (now E) entry)
                                   (take 5 entries))))"
    by (rule ext) (simp add: youtube_channel_videos_def youtube_entries_upto split: sum.splits)
  have rch: "subreddit_discussions E = (\<lambda>subreddit.
                       case reddit_hot E subreddit of
                         Inl e \<Rightarrow> []
                       | Inr children \<Rightarrow>
                           map (the_discussion subreddit)
                             (filter (\<lambda>post_data. relevant (the (rp_title post_data)))
                                (takeWhile (\<lambda>post_data. \<not> post_raises post_data) children)))"
    by (rule ext) (simp add: subreddit_discussions_def reddit_posts_upto split: sum.splits)
  have y: "y = concat (map (youtube_channel_videos E) youtube_channels)"
    using scrape_youtube_content_videos [of E w1] 2 by simp
  have g: "g = (case github_trending_page E of
                Inl e \<Rightarrow> []
              | Inr items \<Rightarrow>
                  map the_trending (filter (\<lambda>item. h2 item \<noteq> None) (take 10 items)))"
    using scrape_github_trending_rows [of E w2] 3 by simp
  have r: "r = concat (map (subreddit_discussions E) reddit_feeds)"
    using scrape_reddit_content_discussions [of E w4] 5 by simp
  have "scrape_all_sources E w =
          (Inr \<lparr>apple_updates = a, youtube_videos = y, github_trending = g, swift_blog = b,
                reddit_discussions = r\<rparr>, w5)"
    using assms 1 2 3 4 5 by (simp add: scrape_all_sources_def)
  then show ?thesis
    using y g r unfolding ych rch by simp
qed

text \<open>Of eleven titled rows of 7 stars the first ten enter; of a listing whose second post
  raises, the first post, of score 0, enters and the third, of score 900, does not.\<close>

theorem thresholds_not_applied_witness:
  "session_fault env_rows = None
   \<and> map_sum id (\<lambda>snapshot. map t_name (github_trending snapshot))
        (fst (scrape_all_sources env_rows world0)) =
       Inr [''a/1'', ''a/2'', ''a/3'', ''a/4'', ''a/5'', ''a/6'', ''a/7'', ''a/8'', ''a/9'', ''a/10'']
   \<and> map_sum id (\<lambda>snapshot. map t_stars (github_trending snapshot))
        (fst (scrape_all_sources env_rows world0)) =
       Inr [''7'', ''7'', ''7'', ''7'', ''7'', ''7'', ''7'', ''7'', ''7'', ''7'']
   \<and> map_sum id reddit_discussions (fst (scrape_all_sources env_rows world0)) =
       Inr [\<lparr>d_title = ''Swift 6 is out'', d_url = ''https://reddit.com/r/swift/1'', d_score = 0,
             d_comments = 0, d_subreddit = ''r/swift''\<rparr>]"
proof -
  have s: "session_fault env_rows = None"
    by (simp add: env_rows_def env_down_def)
  have g: "github_trending_page env_rows = Inr eleven_rows"
    by (simp add: env_rows_def env_down_def)
  have r: "reddit_hot env_rows = (\<lambda>subreddit. if subreddit = ''r/swift'' then Inr broken_listing
                                          else Inl ClientError)"
    by (simp add: env_rows_def env_down_def)
  obtain snapshot w' where
      a: "scrape_all_sources env_rows world0 = (Inr snapshot, w')"
    and gt: "github_trending snapshot =
             (case github_trending_page env_rows of
                Inl e \<Rightarrow> []
              | Inr items \<Rightarrow>
                  map the_trending (filter (\<lambda>item. h2 item \<noteq> None) (take 10 items)))"
    and rd: "reddit_discussions snapshot =
             concat (map (\<lambda>subreddit.
                       case reddit_hot env_rows subreddit of
                         Inl e \<Rightarrow> []
                       | Inr children \<Rightarrow>
                           map (the_discussion subreddit)
                             (filter (\<lambda>post_data. relevant (the (rp_title post_data)))
                                (takeWhile (\<lambda>post_data. \<not> post_raises post_data) children)))
                     reddit_feeds)"
    using thresholds_not_applied [OF s, of world0] by blast
  have names: "map t_name (github_trending snapshot) =
      [''a/1'', ''a/2'', ''a/3'', ''a/4'', ''a/5'', ''a/6'', ''a/7'', ''a/8'', ''a/9'', ''a/10'']"
    unfolding gt g
    by (simp add: eleven_rows_def the_trending_def strip_def is_space_def remove_char_def Let_def)
  have stars: "map t_stars (github_trending snapshot) =
      [''7'', ''7'', ''7'', ''7'', ''7'', ''7'', ''7'', ''7'', ''7'', ''7'']"
    unfolding gt g
    by (simp add: eleven_rows_def the_trending_def strip_def is_space_def remove_char_def Let_def)
  have posts: "reddit_discussions snapshot =
      [\<lparr>d_title = ''Swift 6 is out'', d_url = ''https://reddit.com/r/swift/1'', d_score = 0,
         d_comments = 0, d_subreddit = ''r/swift''\<rparr>]"
    unfolding rd r
    by (simp add: reddit_feeds_def broken_listing_def post_raises_def relevant_examples
          the_discussion_def)
  show ?thesis
    using s a names stars posts by simp
qed

text \<open>The claim as stated fails there: the snapshot holds a discussion of score 0, below
  the minimum of 10, and a repository of 12 stars, below the minimum of 50.\<close>

theorem thresholds_counterexample:
  "fst (scrape_all_sources env_partial world0) =
     Inr \<lparr>apple_updates = [],
          youtube_videos =
            [the_video (entry_at ''boundary'' 0), the_video (entry_at ''new'' (days 7)),
             the_video (entry_at ''third'' (days 7))],
          github_trending =
            [\<lparr>t_name = ''vapor/vapor'', t_description = [], t_stars = ''12'',
              t_url = ''https://github.com/vapor/vapor''\<rparr>],
          swift_blog =
            [the_post (entry_at ''boundary'' 0), the_post (entry_at ''stale'' (- 1)),
             the_post (entry_at ''new'' (days 7))],
          reddit_discussions =
            [\<lparr>d_title = ''Swift 6 is out'', d_url = ''https://reddit.com/r/swift/1'',
              d_score = 0, d_comments = 0, d_subreddit = ''r/swift''\<rparr>,
             \<lparr>d_title = ''Xcode tips'', d_url = ''https://reddit.com/r/swift/3'',
              d_score = 12, d_comments = 3, d_subreddit = ''r/swift''\<rparr>]\<rparr>
   \<and> (0 :: int) < MIN_REDDIT_SCORE
   \<and> (12 :: int) < MIN_GITHUB_STARS"
  by (simp add: scrape_all_sources_def scrape_apple_docs_def scrape_youtube_content_def
        youtube_channels_def scrape_github_trending_def scrape_swift_blog_def
        scrape_reddit_content_def reddit_feeds_def env_partial_def env_down_def
        three_entries_def entry_at_def video_of_def the_video_def post_of_def the_post_def
        three_posts_def relevant_examples days_def world0_def emit_def
        MIN_REDDIT_SCORE_def MIN_GITHUB_STARS_def strip_def is_space_def remove_char_def
        Let_def)

text \<open>
  C9. Within a multi-origin adapter (YouTube over channels, Reddit over subreddits) a fault
  at one origin is caught at that origin: what the adapter returns is the concatenation,
  in order, of what each origin yields on its own, so the records of the origins before
  and after a failing origin are all returned, and an origin whose fetch raises adds
  nothing.
\<close>

theorem failing_origin_keeps_other_origins:
  "fst (youtube_loop E (cs1 @ c # cs2) [] w) =
     fst (youtube_loop E cs1 [] w) @ fst (youtube_loop E [c] [] w) @ fst (youtube_loop E cs2 [] w)
   \<and> fst (reddit_loop E (ss1 @ s # ss2) [] w) =
     fst (reddit_loop E ss1 [] w) @ fst (reddit_loop E [s] [] w) @ fst (reddit_loop E ss2 [] w)
   \<and> (youtube_feed E c = Inl e \<longrightarrow> fst (youtube_loop E [c] [] w) = [])
   \<and> (reddit_hot E s = Inl e \<longrightarrow> fst (reddit_loop E [s] [] w) = [])
   \<and> fst (scrape_youtube_content E w) =
       Inr (concat (map (\<lambda>c. fst (youtube_loop E [c] [] w)) youtube_channels))
   \<and> fst (scrape_reddit_content E w) =
       Inr (concat (map (\<lambda>s. fst (reddit_loop E [s] [] w)) reddit_feeds))"
proof -
  have y1: "fst (youtube_loop E [c] [] w) = youtube_channel_videos E c" for c
    by (simp add: youtube_loop_videos del: youtube_loop.simps)
  have r1: "fst (reddit_loop E [s] [] w) = subreddit_discussions E s" for s
    by (simp add: reddit_loop_discussions del: reddit_loop.simps)
  have y: "fst (scrape_youtube_content E w) =
             Inr (concat (map (youtube_channel_videos E) youtube_channels))"
    using youtube_loop_videos [of E youtube_channels "[]" w]
    by (cases "youtube_loop E youtube_channels [] w") (simp add: scrape_youtube_content_def)
  have r: "fst (scrape_reddit_content E w) =
             Inr (concat (map (subreddit_discussions E) reddit_feeds))"
    using reddit_loop_discussions [of E reddit_feeds "[]" w]
    by (cases "reddit_loop E reddit_feeds [] w") (simp add: scrape_reddit_content_def)
  have y0: "youtube_feed E c = Inl e \<longrightarrow> youtube_channel_videos E c = []"
    by (simp add: youtube_channel_videos_def)
  have r0: "reddit_hot E s = Inl e \<longrightarrow> subreddit_discussions E s = []"
    by (simp add: subreddit_discussions_def)
  show ?thesis
    unfolding y r y1 r1 using y0 r0
    by (simp add: youtube_loop_videos reddit_loop_discussions)
qed

text \<open>The second of three channels and the first of two subreddits are unreachable: the
  records of the other origins are returned.\<close>

theorem failing_origin_keeps_other_origins_witness:
  "youtube_feed env_partial ''UCuP2vJ6kRutQBfRmdcI92mA'' = Inl ClientError
   \<and> fst (youtube_loop env_partial
            ([''UC2D6eRvCeMtcF5OGHf1-trw''] @ ''UCuP2vJ6kRutQBfRmdcI92mA'' #
             [''UC_7ZKZSqtXAcbmhEzVyg8Pw'']) [] world0) =
       [the_video (entry_at ''boundary'' 0), the_video (entry_at ''new'' (days 7)),
        the_video (entry_at ''third'' (days 7))]
   \<and> reddit_hot env_partial ''r/iOSProgramming'' = Inl ClientError
   \<and> fst (reddit_loop env_partial ([] @ ''r/iOSProgramming'' # [''r/swift'']) [] world0) =
       [the_discussion ''r/swift'' (three_posts ! 0), the_discussion ''r/swift'' (three_posts ! 2)]"
  using failing_origin_keeps_other_origins
          [of env_partial "[''UC2D6eRvCeMtcF5OGHf1-trw'']" "''UCuP2vJ6kRutQBfRmdcI92mA''"
              "[''UC_7ZKZSqtXAcbmhEzVyg8Pw'']" world0 "[]" "''r/iOSProgramming''" "[''r/swift'']"
              ClientError]
  by (simp add: env_partial_def env_down_def three_entries_def entry_at_def video_of_def
        the_video_def three_posts_def the_discussion_def relevant_examples days_def)

text \<open>
  C10. The choice between update and create of the chapter is driven by exceptions: when
  reading the existing file raises any exception \<open>e\<close>, or the read succeeds and the
  update raises any exception \<open>e\<close>, the outcome of the inner \<^verbatim>\<open>try\<close> statement is the
  outcome of \<^verbatim>\<open>create_file\<close> on the same path with the same content, so \<open>e\<close> itself is
  never surfaced; the creation is logged among the events of the Publisher.
\<close>

theorem create_after_any_exception:
  "(fst (get_contents E filename w) = Inl e \<longrightarrow>
      create_or_update_file E filename timestamp file_content w =
        create_file E filename (''Auto-generate: New chapter '' @ timestamp) file_content
          (snd (get_contents E filename w)))
   \<and> (fst (get_contents E filename w) = Inr (c, sha)
        \<and> fst (update_file E filename (''Auto-update: New chapter '' @ timestamp) file_content sha
                 (snd (get_contents E filename w))) = Inl e \<longrightarrow>
      create_or_update_file E filename timestamp file_content w =
        create_file E filename (''Auto-generate: New chapter '' @ timestamp) file_content
          (snd (update_file E filename (''Auto-update: New chapter '' @ timestamp) file_content sha
                  (snd (get_contents E filename w)))))
   \<and> log (snd (create_file E filename (''Auto-generate: New chapter '' @ timestamp)
                  file_content w')) =
       log w' @ [CreateFile filename (''Auto-generate: New chapter '' @ timestamp) file_content]
   \<and> (map_of kvs ''new_chapter'' = Some file_content
        \<and> (fst (get_contents E (chapter_path (today E)) w) = Inl e
             \<or> fst (get_contents E (chapter_path (today E)) w) = Inr (c, sha)
               \<and> fst (update_file E (chapter_path (today E))
                         (''Auto-update: New chapter '' @ today E) file_content sha
                         (snd (get_contents E (chapter_path (today E)) w))) = Inl e) \<longrightarrow>
      (\<exists>evs. log (snd (update_course_repo E (JDict kvs) w)) = log w @ evs
           \<and> CreateFile (chapter_path (today E)) (''Auto-generate: New chapter '' @ today E)
                file_content \<in> set evs))"
proof -
  let ?f = "chapter_path (today E)"
  let ?mc = "''Auto-generate: New chapter '' @ today E"
  let ?mu = "''Auto-update: New chapter '' @ today E"
  have a: "fst (get_contents E filename w) = Inl e \<longrightarrow>
      create_or_update_file E filename timestamp file_content w =
        create_file E filename (''Auto-generate: New chapter '' @ timestamp) file_content
          (snd (get_contents E filename w))" for filename timestamp
    by (auto simp: create_or_update_file_def split: prod.splits sum.splits)
  have b: "fst (get_contents E filename w) = Inr (c, sha)
        \<and> fst (update_file E filename (''Auto-update: New chapter '' @ timestamp) file_content sha
                 (snd (get_contents E filename w))) = Inl e \<longrightarrow>
      create_or_update_file E filename timestamp file_content w =
        create_file E filename (''Auto-generate: New chapter '' @ timestamp) file_content
          (snd (update_file E filename (''Auto-update: New chapter '' @ timestamp) file_content sha
                  (snd (get_contents E filename w))))" for filename timestamp
    by (auto simp: create_or_update_file_def split: prod.splits sum.splits)
  have d: "\<exists>evs. log (snd (update_course_repo E (JDict kvs) w)) = log w @ evs
           \<and> CreateFile ?f ?mc file_content \<in> set evs"
    if kv: "map_of kvs ''new_chapter'' = Some file_content"
      and f: "fst (get_contents E ?f w) = Inl e
             \<or> fst (get_contents E ?f w) = Inr (c, sha)
               \<and> fst (update_file E ?f ?mu file_content sha (snd (get_contents E ?f w))) = Inl e"
  proof -
    obtain pre where pre: "log (snd (create_or_update_file E ?f (today E) file_content w)) =
        log w @ pre @ [CreateFile ?f ?mc file_content]"
    proof (cases "fst (get_contents E ?f w) = Inl e")
      case True
      then have "log (snd (create_or_update_file E ?f (today E) file_content w)) =
          log w @ [GetContents ?f] @ [CreateFile ?f ?mc file_content]"
        using a [of ?f "today E"] by (simp add: create_file_log get_contents_world)
      then show ?thesis using that by blast
    next
      case False
      with f have "log (snd (create_or_update_file E ?f (today E) file_content w)) =
          log w @ [GetContents ?f, UpdateFile ?f ?mu file_content sha]
            @ [CreateFile ?f ?mc file_content]"
        using b [of ?f "today E"]
        by (simp add: create_file_log update_file_log get_contents_world)
      then show ?thesis using that by blast
    qed
    obtain post where post: "log (snd (update_course_repo E (JDict kvs) w)) =
        log (snd (create_or_update_file E ?f (today E) file_content w)) @ post"
      using update_course_repo_chapter [OF kv, of E w] by blast
    have "log (snd (update_course_repo E (JDict kvs) w)) =
        log w @ (pre @ [CreateFile ?f ?mc file_content] @ post)"
      using pre post by simp
    then show ?thesis
      by (intro exI [of _ "pre @ [CreateFile ?f ?mc file_content] @ post"]) simp
  qed
  show ?thesis
    using a [of filename timestamp] b [of filename timestamp] d
    by (simp only: create_file_log) blast
qed

text \<open>The chapter exists and its update is rejected with a 409: the creation is attempted
  and fails with a 422, which is the error that surfaces.\<close>

theorem create_after_any_exception_witness:
  "fst (get_contents env_stale (chapter_path ''20260101'')
          (world0\<lparr>files := (files world0)(chapter_path ''20260101'' \<mapsto> ''# Old'')\<rparr>))
     = Inr (''# Old'', ''# Old'')
   \<and> log (snd (create_or_update_file env_stale (chapter_path ''20260101'') ''20260101''
                 (JStr ''# Hello'')
                 (world0\<lparr>files := (files world0)(chapter_path ''20260101'' \<mapsto> ''# Old'')\<rparr>)))
     = [GetContents (chapter_path ''20260101''),
        UpdateFile (chapter_path ''20260101'') ''Auto-update: New chapter 20260101''
          (JStr ''# Hello'') ''# Old'',
        CreateFile (chapter_path ''20260101'') ''Auto-generate: New chapter 20260101''
          (JStr ''# Hello'')]
   \<and> fst (create_or_update_file env_stale (chapter_path ''20260101'') ''20260101''
                 (JStr ''# Hello'')
                 (world0\<lparr>files := (files world0)(chapter_path ''20260101'' \<mapsto> ''# Old'')\<rparr>))
     = Inl (GithubException 422)"
  using create_after_any_exception
          [of env_stale "chapter_path ''20260101''"
              "world0\<lparr>files := (files world0)(chapter_path ''20260101'' \<mapsto> ''# Old'')\<rparr>"
              "GithubException 409" "''20260101''" "JStr ''# Hello''" "''# Old''" "''# Old''"
              world0 "[]"]
  by (simp add: get_contents_def update_file_def create_file_def env_stale_def env_chapter_def
        env_down_def world0_def emit_def Let_def chapter_not_summary)

end
